theory Spec2Isabelle
  imports
    Complex_Main
    "HOL-Library.Multiset"
    "HOL-Library.AList"
    "HOL-Library.Char_ord"
    "HOL-Library.List_Lexorder"
    "HOL-Library.Product_Lexorder"
begin

section \<open>JavaScript string primitives used by the sources\<close>

text \<open>
  Strings are modelled as lists of 8-bit characters.  The case conversion and the
  character classes below are the ASCII fragment of the JavaScript built-ins; names
  containing characters outside ASCII are not covered by the model.
\<close>

definition upper_letters :: string where
  "upper_letters = ''ABCDEFGHIJKLMNOPQRSTUVWXYZ''"

definition lower_letters :: string where
  "lower_letters = ''abcdefghijklmnopqrstuvwxyz''"

definition digit_chars :: string where
  "digit_chars = ''0123456789''"

definition isUpper :: "char \<Rightarrow> bool" where
  "isUpper c = (c \<in> set upper_letters)"

definition toLowerCase_char :: "char \<Rightarrow> char" where
  "toLowerCase_char c =
     (case map_of (zip upper_letters lower_letters) c of Some l \<Rightarrow> l | None \<Rightarrow> c)"

text \<open>\<^verbatim>\<open>String.prototype.toLowerCase\<close>\<close>

definition toLowerCase :: "string \<Rightarrow> string" where
  "toLowerCase s = map toLowerCase_char s"

text \<open>The character class \<^verbatim>\<open>[a-z0-9]\<close>.\<close>

definition is_az09 :: "char \<Rightarrow> bool" where
  "is_az09 c = (c \<in> set (lower_letters @ digit_chars))"

text \<open>
  \<^verbatim>\<open>s.replace(/[^a-z0-9]+/g, rep)\<close>: every maximal run of characters outside
  \<^verbatim>\<open>[a-z0-9]\<close> is replaced by one copy of \<open>rep\<close>.  The flag records whether the
  previous character already belonged to the current run.
\<close>

fun replace_runs :: "bool \<Rightarrow> string \<Rightarrow> string \<Rightarrow> string" where
  "replace_runs in_run rep [] = []"
| "replace_runs in_run rep (c # cs) =
     (if is_az09 c then c # replace_runs False rep cs
      else if in_run then replace_runs True rep cs
      else rep @ replace_runs True rep cs)"

definition replace_non_az09 :: "string \<Rightarrow> string \<Rightarrow> string" where
  "replace_non_az09 rep s = replace_runs False rep s"

text \<open>\<^verbatim>\<open>s.replace(/([A-Z])/g, " $1")\<close>: a blank in front of every capital letter.\<close>

fun space_before_capitals :: "string \<Rightarrow> string" where
  "space_before_capitals [] = []"
| "space_before_capitals (c # cs) =
     (if isUpper c then CHR '' '' # c # space_before_capitals cs
      else c # space_before_capitals cs)"

text \<open>\<^verbatim>\<open>String.prototype.startsWith\<close> and \<^verbatim>\<open>String.prototype.includes\<close>\<close>

fun startsWith :: "string \<Rightarrow> string \<Rightarrow> bool" where
  "startsWith s [] = True"
| "startsWith [] (p # ps) = False"
| "startsWith (c # cs) (p # ps) = (c = p \<and> startsWith cs ps)"

fun includes_s :: "string \<Rightarrow> string \<Rightarrow> bool" where
  "includes_s [] sub = startsWith [] sub"
| "includes_s (c # cs) sub = (startsWith (c # cs) sub \<or> includes_s cs sub)"

text \<open>\<^verbatim>\<open>String.prototype.trim\<close> on the ASCII white space characters.\<close>

definition isSpace :: "char \<Rightarrow> bool" where
  "isSpace c = (c \<in> set [CHR '' '', CHR 0x09, CHR 0x0A, CHR 0x0B, CHR 0x0C, CHR 0x0D])"

definition trim :: "string \<Rightarrow> string" where
  "trim s = rev (dropWhile isSpace (rev (dropWhile isSpace s)))"

text \<open>
  \<^verbatim>\<open>s.split(" ")\<close>: the pieces between single blanks; the empty string gives one
  empty piece, and two adjacent blanks give an empty piece between them.
\<close>

fun split_acc :: "char \<Rightarrow> string \<Rightarrow> string \<Rightarrow> string list" where
  "split_acc sep cur [] = [cur]"
| "split_acc sep cur (c # cs) =
     (if c = sep then cur # split_acc sep [] cs else split_acc sep (cur @ [c]) cs)"

definition split_str :: "string \<Rightarrow> char \<Rightarrow> string list" where
  "split_str s sep = split_acc sep [] s"

text \<open>
  \<^verbatim>\<open>Array.from(new Set(xs))\<close>: the first occurrence of every element, in order.
\<close>

fun dedupe_acc :: "'a list \<Rightarrow> 'a list \<Rightarrow> 'a list" where
  "dedupe_acc seen [] = []"
| "dedupe_acc seen (x # xs) =
     (if x \<in> set seen then dedupe_acc seen xs else x # dedupe_acc (x # seen) xs)"

definition dedupe :: "'a list \<Rightarrow> 'a list" where
  "dedupe xs = dedupe_acc [] xs"

text \<open>
  \<^verbatim>\<open>Number.prototype.toString(radix)\<close> on a non-negative integer, for a radix
  between 2 and 36: the digits \<^verbatim>\<open>0-9a-z\<close>, most significant first, no leading zero.
  The sources use the radix 36 and the decimal conversion only.
\<close>

definition digit_char :: "nat \<Rightarrow> char" where
  "digit_char d = (digit_chars @ lower_letters) ! d"

function toString_radix :: "nat \<Rightarrow> nat \<Rightarrow> string" where
  "toString_radix r n =
     (if r < 2 \<or> n < r then [digit_char n]
      else toString_radix r (n div r) @ [digit_char (n mod r)])"
  by pat_completeness auto
termination
  by (relation "measure (\<lambda>(r, n). n)") auto

declare toString_radix.simps [simp del]

text \<open>String conversion of an integer inside a template literal.\<close>

definition int_toString :: "int \<Rightarrow> string" where
  "int_toString i =
     (if i < 0 then CHR ''-'' # toString_radix 10 (nat (- i)) else toString_radix 10 (nat i))"

section \<open>Data model\<close>

subsection \<open>Raw captured shape (\<^verbatim>\<open>ExtractedShape\<close>, extractor/types.ts)\<close>

record Position =
  pos_x :: real
  pos_y :: real

record Size =
  width :: real
  height :: real

record ExtractedFill =
  fill_color :: "string option"
  fill_transparency :: "real option"

record ExtractedLine =
  line_color :: "string option"
  line_weight :: "real option"
  line_transparency :: "real option"

record ExtractedShape =
  e_name :: string
  e_type :: int
  autoShapeName :: "string option"
  isGroup :: "bool option"
  position :: Position
  size_e :: Size
  rotation :: real
  adjustments :: "real list option"
  nativePptxRelPath :: "string option"
  isPicture :: "bool option"
  pngTempPath :: "string option"
  fill_e :: ExtractedFill
  line_e :: ExtractedLine

subsection \<open>Shape record (\<^verbatim>\<open>ShapeInfo\<close>)\<close>

text \<open>
  The declaration of \<^verbatim>\<open>ShapeInfo\<close> (types/shapes.ts) is not among the sources; the
  fields are those that \<^verbatim>\<open>mapToShapeInfo\<close> writes.  \<^verbatim>\<open>ShapeType\<close> and
  \<^verbatim>\<open>ShapeCategory\<close> are string types.
\<close>

record ShapeFill =
  sf_color :: string
  sf_transparency :: "real option"

record ShapeLine =
  sl_color :: string
  sl_width :: real
  sl_transparency :: "real option"

record PptxDefinition =
  pd_type :: string
  pd_x :: real
  pd_y :: real
  pd_w :: real
  pd_h :: real
  pd_rotate :: "real option"
  pd_adj :: "real list option"
  pd_rectRadius :: "real option"
  pd_fill :: "ShapeFill option"
  pd_line :: "ShapeLine option"

record ShapeInfo =
  id_s :: string
  name :: string
  category :: string
  description :: string
  tags :: "string list"
  preview :: string
  pptxDefinition :: PptxDefinition
  nativePptx :: "string option"
  nativeOnly :: "bool option"

section \<open>Capture normalizer (shape mapper)\<close>

text \<open>\<^verbatim>\<open>AUTOSHAPE_TYPE_MAP\<close>: AutoShapeType constant to shape kind.\<close>

definition AUTOSHAPE_TYPE_MAP :: "(int \<times> string) list" where
  "AUTOSHAPE_TYPE_MAP =
   [(1, ''rectangle''), (2, ''parallelogram''), (3, ''trapezoid''), (4, ''diamond''),
    (5, ''roundRectangle''), (6, ''octagon''), (7, ''triangle''), (8, ''triangle''),
    (9, ''ellipse''), (10, ''hexagon''), (11, ''cross''), (12, ''plus''), (13, ''star''),
    (17, ''heart''), (19, ''pentagon''),
    (36, ''leftArrow''), (37, ''downArrow''), (38, ''upArrow''), (39, ''rightArrow''),
    (40, ''leftRightArrow''), (41, ''upDownArrow''), (42, ''quadArrow''),
    (43, ''notchedRightArrow''), (44, ''bentArrow''), (45, ''uturnArrow''),
    (46, ''leftArrowCallout''), (47, ''rightArrowCallout''), (48, ''upArrowCallout''),
    (49, ''downArrowCallout''), (52, ''circularArrow''), (55, ''chevron''),
    (109, ''flowChartProcess''), (110, ''flowChartAlternateProcess''),
    (111, ''flowChartDecision''), (112, ''flowChartInputOutput''),
    (113, ''flowChartPredefinedProcess''), (114, ''flowChartInternalStorage''),
    (115, ''flowChartDocument''), (116, ''flowChartMultidocument''),
    (117, ''flowChartTerminator''), (118, ''flowChartPreparation''),
    (119, ''flowChartManualInput''), (120, ''flowChartManualOperation''),
    (121, ''flowChartConnector''), (122, ''flowChartOffpageConnector''),
    (125, ''flowChartMagneticTape''), (126, ''flowChartMagneticDisk''),
    (127, ''flowChartMagneticDrum''), (128, ''flowChartDisplay''),
    (129, ''flowChartDelay''), (134, ''flowChartSort''), (135, ''flowChartExtract''),
    (136, ''flowChartMerge''), (137, ''flowChartOnlineStorage''),
    (138, ''flowChartSummingJunction''), (139, ''flowChartOr''),
    (140, ''flowChartCollate''), (141, ''flowChartPunchedCard''),
    (142, ''flowChartPunchedTape''),
    (56, ''wedgeRectCallout''), (57, ''wedgeRoundRectCallout''),
    (58, ''wedgeEllipseCallout''), (106, ''cloudCallout''),
    (61, ''borderCallout1''), (62, ''borderCallout2''), (63, ''borderCallout3''),
    (64, ''accentCallout1''), (65, ''borderCallout1''), (66, ''borderCallout2''),
    (67, ''borderCallout3''), (68, ''accentCallout1''), (70, ''callout1''),
    (71, ''callout2''), (72, ''callout3''), (73, ''accentCallout1''),
    (74, ''accentBorderCallout1''), (75, ''accentBorderCallout2''),
    (76, ''accentBorderCallout3'')]"

text \<open>\<^verbatim>\<open>AUTOSHAPE_NAME_MAP\<close>: AutoShapeType enum name to shape kind.\<close>

definition AUTOSHAPE_NAME_MAP :: "(string \<times> string) list" where
  "AUTOSHAPE_NAME_MAP =
   [(''msoShapeRectangle'', ''rectangle''),
    (''msoShapeRoundedRectangle'', ''roundRectangle''),
    (''msoShapeOval'', ''ellipse''),
    (''msoShapeIsoscelesTriangle'', ''triangle''),
    (''msoShapeRightTriangle'', ''triangle''),
    (''msoShapeDiamond'', ''diamond''),
    (''msoShapeHexagon'', ''hexagon''),
    (''msoShapeOctagon'', ''octagon''),
    (''msoShapeParallelogram'', ''parallelogram''),
    (''msoShapeTrapezoid'', ''trapezoid''),
    (''msoShapePentagon'', ''pentagon''),
    (''msoShapeHeart'', ''heart''),
    (''msoShapeLeftArrow'', ''leftArrow''),
    (''msoShapeDownArrow'', ''downArrow''),
    (''msoShapeUpArrow'', ''upArrow''),
    (''msoShapeRightArrow'', ''rightArrow''),
    (''msoShapeLeftRightArrow'', ''leftRightArrow''),
    (''msoShapeUpDownArrow'', ''upDownArrow''),
    (''msoShapeQuadArrow'', ''quadArrow''),
    (''msoShapeNotchedRightArrow'', ''notchedRightArrow''),
    (''msoShapeBentArrow'', ''bentArrow''),
    (''msoShapeUTurnArrow'', ''uturnArrow''),
    (''msoShapeLeftArrowCallout'', ''leftArrowCallout''),
    (''msoShapeRightArrowCallout'', ''rightArrowCallout''),
    (''msoShapeUpArrowCallout'', ''upArrowCallout''),
    (''msoShapeDownArrowCallout'', ''downArrowCallout''),
    (''msoShapeCircularArrow'', ''circularArrow''),
    (''msoShapeChevron'', ''chevron''),
    (''msoShapeFlowchartProcess'', ''flowChartProcess''),
    (''msoShapeFlowchartAlternateProcess'', ''flowChartAlternateProcess''),
    (''msoShapeFlowchartDecision'', ''flowChartDecision''),
    (''msoShapeFlowchartData'', ''flowChartInputOutput''),
    (''msoShapeFlowchartPredefinedProcess'', ''flowChartPredefinedProcess''),
    (''msoShapeFlowchartInternalStorage'', ''flowChartInternalStorage''),
    (''msoShapeFlowchartDocument'', ''flowChartDocument''),
    (''msoShapeFlowchartMultidocument'', ''flowChartMultidocument''),
    (''msoShapeFlowchartTerminator'', ''flowChartTerminator''),
    (''msoShapeFlowchartPreparation'', ''flowChartPreparation''),
    (''msoShapeFlowchartManualInput'', ''flowChartManualInput''),
    (''msoShapeFlowchartManualOperation'', ''flowChartManualOperation''),
    (''msoShapeFlowchartConnector'', ''flowChartConnector''),
    (''msoShapeFlowchartOffpageConnector'', ''flowChartOffpageConnector''),
    (''msoShapeFlowchartDisplay'', ''flowChartDisplay''),
    (''msoShapeFlowchartDelay'', ''flowChartDelay''),
    (''msoShapeFlowchartSort'', ''flowChartSort''),
    (''msoShapeFlowchartExtract'', ''flowChartExtract''),
    (''msoShapeFlowchartMerge'', ''flowChartMerge''),
    (''msoShapeFlowchartOnlineStorage'', ''flowChartOnlineStorage''),
    (''msoShapeFlowchartSummingJunction'', ''flowChartSummingJunction''),
    (''msoShapeFlowchartOr'', ''flowChartOr''),
    (''msoShapeRectangularCallout'', ''wedgeRectCallout''),
    (''msoShapeRoundedRectangularCallout'', ''wedgeRoundRectCallout''),
    (''msoShapeOvalCallout'', ''wedgeEllipseCallout''),
    (''msoShapeCloudCallout'', ''cloudCallout''),
    (''msoShapePlaque'', ''roundRectangle''),
    (''msoShapePlaqueTabs'', ''roundRectangle'')]"

text \<open>
  \<^verbatim>\<open>chooseType\<close>: enum name first, numeric code second, then the name heuristic.
  An empty \<^verbatim>\<open>autoShapeName\<close> is falsy, and every kind in the two tables is a
  non-empty string, so the truthiness tests of the source are the lookups below.
\<close>

definition chooseType :: "ExtractedShape \<Rightarrow> string" where
  "chooseType extracted =
     (case (case autoShapeName extracted of
              None \<Rightarrow> None
            | Some n \<Rightarrow> (if n = [] then None else map_of AUTOSHAPE_NAME_MAP n)) of
        Some t \<Rightarrow> t
      | None \<Rightarrow>
         (case map_of AUTOSHAPE_TYPE_MAP (e_type extracted) of
            Some t \<Rightarrow> t
          | None \<Rightarrow>
             (let nm = toLowerCase (e_name extracted)
              in if includes_s nm ''tag'' \<or> includes_s nm ''etiqueta'' \<or> includes_s nm ''label''
                 then ''roundRectangle'' else ''rectangle'')))"

text \<open>\<^verbatim>\<open>getCategoryFromType\<close>\<close>

definition getCategoryFromType :: "string \<Rightarrow> string" where
  "getCategoryFromType shapeType =
     (if startsWith shapeType ''flowChart'' then ''flowchart''
      else if includes_s shapeType ''Arrow'' \<or> includes_s shapeType ''arrow'' \<or>
              includes_s shapeType ''Chevron'' \<or> includes_s shapeType ''chevron''
           then ''arrows''
      else if includes_s shapeType ''Callout'' \<or> includes_s shapeType ''callout''
           then ''callouts''
      else ''basic'')"

text \<open>
  \<^verbatim>\<open>generateShapeId\<close>; the first argument is the value of \<^verbatim>\<open>Date.now()\<close>.
\<close>

definition generateShapeId :: "nat \<Rightarrow> string \<Rightarrow> string" where
  "generateShapeId now nm =
     (let sanitized = replace_non_az09 ''-'' (toLowerCase nm);
          timestamp = toString_radix 36 now
      in ''captured-'' @ sanitized @ ''-'' @ timestamp)"

text \<open>\<^verbatim>\<open>generateTags\<close>\<close>

definition generateTags :: "string \<Rightarrow> string \<Rightarrow> string \<Rightarrow> string list" where
  "generateTags nm shapeType cat =
     (let typeParts = split_str (toLowerCase (trim (space_before_capitals shapeType))) CHR '' '';
          nameParts = filter (\<lambda>p. length p > 2)
                        (split_str (replace_non_az09 '' '' (toLowerCase nm)) CHR '' '')
      in dedupe ([''captured'', cat] @ typeParts @ nameParts))"

text \<open>Truthiness of an optional boolean flag: absent and \<^verbatim>\<open>false\<close> are both falsy.\<close>

definition truthy_flag :: "bool option \<Rightarrow> bool" where
  "truthy_flag b = (b = Some True)"

text \<open>\<^verbatim>\<open>a || b\<close> on an optional string: absent and empty are both falsy.\<close>

definition or_else :: "string option \<Rightarrow> string \<Rightarrow> string" where
  "or_else a b = (case a of None \<Rightarrow> b | Some v \<Rightarrow> (if v = [] then b else v))"

text \<open>
  \<^verbatim>\<open>mapToShapeInfo\<close>.  \<open>now\<close> is the clock reading; \<open>customName\<close> is the optional
  second argument (an empty custom name is falsy and falls back to the raw name).
\<close>

definition mapToShapeInfo :: "nat \<Rightarrow> ExtractedShape \<Rightarrow> string option \<Rightarrow> ShapeInfo" where
  "mapToShapeInfo now extracted customName =
     (let isNativeOnly = (truthy_flag (isGroup extracted) \<or> isPicture extracted = Some True);
          pptxType = (if isNativeOnly then None else Some (chooseType extracted));
          cat = (case pptxType of None \<Rightarrow> ''basic'' | Some t \<Rightarrow> getCategoryFromType t);
          nm = or_else customName (e_name extracted);
          ptype = (case pptxType of None \<Rightarrow> ''rectangle''
                   | Some t \<Rightarrow> (if t = [] then ''rectangle'' else t))
      in \<lparr> id_s = generateShapeId now nm,
           name = nm,
           category = cat,
           description = ''Captured from PowerPoint'' @
              (if truthy_flag (isGroup extracted) then '' (Group)''
               else if truthy_flag (isPicture extracted) then '' (Picture)'' else '''') @
              '' (Type: '' @ int_toString (e_type extracted) @ '')'',
           tags = generateTags nm ptype cat,
           preview = cat @ ''/placeholder.png'',
           pptxDefinition =
             \<lparr> pd_type = ptype,
               pd_x = pos_x (position extracted),
               pd_y = pos_y (position extracted),
               pd_w = width (size_e extracted),
               pd_h = height (size_e extracted),
               pd_rotate = (if rotation extracted \<noteq> 0 then Some (rotation extracted) else None),
               pd_adj = adjustments extracted,
               pd_rectRadius =
                 (case adjustments extracted of
                    None \<Rightarrow> None
                  | Some adjs \<Rightarrow>
                     (if pptxType = Some ''roundRectangle'' \<and> length adjs > 0
                      then Some (adjs ! 0) else None)),
               pd_fill =
                 (case fill_color (fill_e extracted) of
                    None \<Rightarrow> None
                  | Some c \<Rightarrow>
                     (if c = [] then None
                      else Some \<lparr> sf_color = c,
                                  sf_transparency = fill_transparency (fill_e extracted) \<rparr>)),
               pd_line =
                 (case line_color (line_e extracted) of
                    None \<Rightarrow> None
                  | Some c \<Rightarrow>
                     (if c = [] then None
                      else Some \<lparr> sl_color = c,
                                  sl_width = (case line_weight (line_e extracted) of
                                                None \<Rightarrow> 1
                                              | Some wt \<Rightarrow> (if wt = 0 then 1 else wt)),
                                  sl_transparency = line_transparency (line_e extracted) \<rparr>)) \<rparr>,
           nativePptx = nativePptxRelPath extracted,
           nativeOnly = (if isNativeOnly then Some True else None) \<rparr>)"

section \<open>Shape store (utils/shapeSaver.ts)\<close>

subsection \<open>Host primitives\<close>

text \<open>
  \<^verbatim>\<open>Array.prototype.sort(cmp)\<close> is a stable sort: \<open>a\<close> stays in front of \<open>b\<close>
  unless the comparator says otherwise.  For a consistent comparator the result of the
  host's algorithm is the stable insertion sort below.
\<close>

fun insert_sorted :: "('a \<Rightarrow> 'a \<Rightarrow> int) \<Rightarrow> 'a \<Rightarrow> 'a list \<Rightarrow> 'a list" where
  "insert_sorted cmp x [] = [x]"
| "insert_sorted cmp x (y # ys) =
     (if cmp x y \<le> 0 then x # y # ys else y # insert_sorted cmp x ys)"

definition array_sort :: "('a \<Rightarrow> 'a \<Rightarrow> int) \<Rightarrow> 'a list \<Rightarrow> 'a list" where
  "array_sort cmp xs = foldr (insert_sorted cmp) xs []"

text \<open>\<^verbatim>\<open>Array.prototype.findIndex\<close>: the first index whose element satisfies \<open>P\<close>, or -1.\<close>

fun findIndex :: "('a \<Rightarrow> bool) \<Rightarrow> 'a list \<Rightarrow> int" where
  "findIndex P [] = - 1"
| "findIndex P (x # xs) =
     (if P x then 0 else (let i = findIndex P xs in if i = - 1 then - 1 else i + 1))"

text \<open>A thrown \<^verbatim>\<open>Error\<close> with its message.\<close>

datatype error = Error string

text \<open>
  The text of a store file is identified with what \<^verbatim>\<open>JSON.parse\<close> makes of it:
  a syntax error, or an array of shape records (what \<^verbatim>\<open>JSON.stringify\<close> of such an
  array reads back as).  A file whose JSON is well-formed but is not an array of shape
  records is outside the model.  A file that exists may still fail to be read.
\<close>

datatype json_text = Invalid_JSON | Shapes_JSON "ShapeInfo list"

datatype file_node = Unreadable | Readable json_text

text \<open>
  The library on disk: the library root, the files by path, and for every path the
  message of the error that writing to it raises, if any.
\<close>

record library =
  libraryRoot :: string
  files :: "string \<rightharpoonup> file_node"
  write_error :: "string \<rightharpoonup> string"

definition existsSync :: "library \<Rightarrow> string \<Rightarrow> bool" where
  "existsSync lib path = (files lib path \<noteq> None)"

definition readFileSync :: "library \<Rightarrow> string \<Rightarrow> error + json_text" where
  "readFileSync lib path =
     (case files lib path of
        Some (Readable t) \<Rightarrow> Inr t
      | Some Unreadable \<Rightarrow> Inl (Error ''EACCES'')
      | None \<Rightarrow> Inl (Error ''ENOENT''))"

definition JSON_parse :: "json_text \<Rightarrow> error + ShapeInfo list" where
  "JSON_parse t =
     (case t of Invalid_JSON \<Rightarrow> Inl (Error ''SyntaxError'') | Shapes_JSON xs \<Rightarrow> Inr xs)"

definition JSON_stringify :: "ShapeInfo list \<Rightarrow> json_text" where
  "JSON_stringify xs = Shapes_JSON xs"

definition writeFileSync :: "library \<Rightarrow> string \<Rightarrow> json_text \<Rightarrow> (error + unit) \<times> library" where
  "writeFileSync lib path t =
     (case write_error lib path of
        Some msg \<Rightarrow> (Inl (Error msg), lib)
      | None \<Rightarrow> (Inr (), lib\<lparr>files := (files lib)(path \<mapsto> Readable t)\<rparr>))"

text \<open>
  \<^verbatim>\<open>path.join\<close> of two segments.  Normalisation of the segments is not modelled,
  and two paths are the same file exactly when they are the same string.
\<close>

definition join :: "string \<Rightarrow> string \<Rightarrow> string" where
  "join a b = a @ ''/'' @ b"

subsection \<open>Store operations\<close>

definition getShapesDir :: "library \<Rightarrow> string" where
  "getShapesDir lib = join (libraryRoot lib) ''shapes''"

definition getCategoryFilePath :: "library \<Rightarrow> string \<Rightarrow> string" where
  "getCategoryFilePath lib cat = join (getShapesDir lib) (cat @ ''.json'')"

definition loadCategoryShapes :: "library \<Rightarrow> string \<Rightarrow> ShapeInfo list" where
  "loadCategoryShapes lib cat =
     (let filePath = getCategoryFilePath lib cat
      in if \<not> existsSync lib filePath then []
         else (case readFileSync lib filePath of
                 Inl e \<Rightarrow> []
               | Inr content \<Rightarrow>
                  (case JSON_parse content of Inl e \<Rightarrow> [] | Inr shapes \<Rightarrow> shapes)))"

text \<open>
  \<^verbatim>\<open>saveCategoryShapes\<close>.  The first argument stands for the host's
  \<^verbatim>\<open>String.prototype.localeCompare\<close>, whose result depends on the locale data of the
  runtime.
\<close>

definition saveCategoryShapes ::
  "(string \<Rightarrow> string \<Rightarrow> int) \<Rightarrow> library \<Rightarrow> string \<Rightarrow> ShapeInfo list \<Rightarrow> (error + unit) \<times> library" where
  "saveCategoryShapes localeCompare lib cat shapes =
     (let filePath = getCategoryFilePath lib cat;
          sortedShapes = array_sort (\<lambda>a b. localeCompare (name a) (name b)) shapes;
          json = JSON_stringify sortedShapes
      in case writeFileSync lib filePath json of
           (Inl (Error msg), lib') \<Rightarrow>
             (Inl (Error (''Failed to save shapes to '' @ cat @ ''.json at '' @ filePath @
                          '': '' @ msg)), lib')
         | (Inr u, lib') \<Rightarrow> (Inr (), lib'))"

definition shapeExists :: "library \<Rightarrow> string \<Rightarrow> string \<Rightarrow> bool" where
  "shapeExists lib i cat = list_ex (\<lambda>shape. id_s shape = i) (loadCategoryShapes lib cat)"

definition addShapeToLibrary ::
  "(string \<Rightarrow> string \<Rightarrow> int) \<Rightarrow> ShapeInfo \<Rightarrow> library \<Rightarrow> (error + string) \<times> library" where
  "addShapeToLibrary localeCompare shape lib =
     (let cat = category shape;
          shapes = loadCategoryShapes lib cat;
          existingIndex = findIndex (\<lambda>s. id_s s = id_s shape) shapes;
          shapes' = (if existingIndex \<noteq> - 1 then shapes[nat existingIndex := shape]
                     else shapes @ [shape])
      in case saveCategoryShapes localeCompare lib cat shapes' of
           (Inl e, lib') \<Rightarrow> (Inl e, lib')
         | (Inr u, lib') \<Rightarrow> (Inr (getCategoryFilePath lib cat), lib'))"

text \<open>
  \<^verbatim>\<open>Partial<ShapeInfo>\<close>: every key may be absent (\<open>None\<close>).  For the two optional
  fields of a shape record a key may also be present with the value \<^verbatim>\<open>undefined\<close>
  (\<open>Some None\<close>), which the object spread copies.
\<close>

record ShapeInfo_partial =
  p_id :: "string option"
  p_name :: "string option"
  p_category :: "string option"
  p_description :: "string option"
  p_tags :: "string list option"
  p_preview :: "string option"
  p_pptxDefinition :: "PptxDefinition option"
  p_nativePptx :: "string option option"
  p_nativeOnly :: "bool option option"

definition no_updates :: ShapeInfo_partial where
  "no_updates = \<lparr> p_id = None, p_name = None, p_category = None, p_description = None,
                  p_tags = None, p_preview = None, p_pptxDefinition = None,
                  p_nativePptx = None, p_nativeOnly = None \<rparr>"

text \<open>
  The object literal \<^verbatim>\<open>{ ...shapes[index], ...updates, id, category }\<close> of
  \<^verbatim>\<open>updateShapeInLibrary\<close>.
\<close>

definition spread_updates :: "ShapeInfo \<Rightarrow> ShapeInfo_partial \<Rightarrow> string \<Rightarrow> string \<Rightarrow> ShapeInfo" where
  "spread_updates old updates i cat =
     \<lparr> id_s = i,
       name = (case p_name updates of None \<Rightarrow> name old | Some v \<Rightarrow> v),
       category = cat,
       description = (case p_description updates of None \<Rightarrow> description old | Some v \<Rightarrow> v),
       tags = (case p_tags updates of None \<Rightarrow> tags old | Some v \<Rightarrow> v),
       preview = (case p_preview updates of None \<Rightarrow> preview old | Some v \<Rightarrow> v),
       pptxDefinition =
         (case p_pptxDefinition updates of None \<Rightarrow> pptxDefinition old | Some v \<Rightarrow> v),
       nativePptx = (case p_nativePptx updates of None \<Rightarrow> nativePptx old | Some v \<Rightarrow> v),
       nativeOnly = (case p_nativeOnly updates of None \<Rightarrow> nativeOnly old | Some v \<Rightarrow> v) \<rparr>"

definition not_found_message :: "string \<Rightarrow> string \<Rightarrow> string" where
  "not_found_message i cat =
     ''Shape with ID '' @ [CHR 0x27] @ i @ [CHR 0x27] @ '' not found in '' @ cat @ '' category''"

definition updateShapeInLibrary ::
  "(string \<Rightarrow> string \<Rightarrow> int) \<Rightarrow> string \<Rightarrow> string \<Rightarrow> ShapeInfo_partial \<Rightarrow> library
     \<Rightarrow> (error + unit) \<times> library" where
  "updateShapeInLibrary localeCompare i cat updates lib =
     (let shapes = loadCategoryShapes lib cat;
          index = findIndex (\<lambda>s. id_s s = i) shapes
      in if index = - 1 then (Inl (Error (not_found_message i cat)), lib)
         else saveCategoryShapes localeCompare lib cat
                (shapes[nat index := spread_updates (shapes ! nat index) updates i cat]))"

definition removeShapeFromLibrary ::
  "(string \<Rightarrow> string \<Rightarrow> int) \<Rightarrow> string \<Rightarrow> string \<Rightarrow> library \<Rightarrow> (error + unit) \<times> library" where
  "removeShapeFromLibrary localeCompare i cat lib =
     (let shapes = loadCategoryShapes lib cat;
          filteredShapes = filter (\<lambda>s. id_s s \<noteq> i) shapes
      in if length filteredShapes = length shapes
         then (Inl (Error (not_found_message i cat)), lib)
         else saveCategoryShapes localeCompare lib cat filteredShapes)"

text \<open>
  \<^verbatim>\<open>getShapeCounts\<close>: the object \<^verbatim>\<open>counts\<close> is an association list in insertion
  order, filled by the \<^verbatim>\<open>forEach\<close> over the four category keys.
\<close>

definition count_categories :: "string list" where
  "count_categories = [''basic'', ''arrows'', ''flowchart'', ''callouts'']"

definition getShapeCounts :: "library \<Rightarrow> (string \<times> nat) list" where
  "getShapeCounts lib =
     foldl (\<lambda>counts cat. AList.update cat (length (loadCategoryShapes lib cat)) counts)
       [] count_categories"

text \<open>\<^verbatim>\<open>Object.values(counts).reduce((sum, count) => sum + count, 0)\<close>\<close>

definition getTotalShapeCount :: "library \<Rightarrow> nat" where
  "getTotalShapeCount lib = foldl (\<lambda>sum count. sum + count) 0 (map snd (getShapeCounts lib))"

section \<open>Shape cache (utils/cache.ts)\<close>

record ShapeCacheEntry =
  ce_shapes :: "ShapeInfo list"
  lastModified :: int
  ce_category :: string

type_synonym ShapeCache = "string \<rightharpoonup> ShapeCacheEntry"

text \<open>
  \<^verbatim>\<open>statSync(filePath).mtime.getTime()\<close> is read from \<open>mtime\<close>: the modification time
  in milliseconds, or \<open>None\<close> when the call throws.  Both functions return the module's
  cache object as they leave it.
\<close>

definition getCachedShapes ::
  "(string \<rightharpoonup> int) \<Rightarrow> ShapeCache \<Rightarrow> string \<Rightarrow> string \<Rightarrow> ShapeInfo list option \<times> ShapeCache" where
  "getCachedShapes mtime cache cat filePath =
     (case cache cat of
        None \<Rightarrow> (None, cache)
      | Some cacheEntry \<Rightarrow>
         (case mtime filePath of
            Some currentModified \<Rightarrow>
              (if lastModified cacheEntry = currentModified
               then (Some (ce_shapes cacheEntry), cache)
               else (None, cache(cat := None)))
          | None \<Rightarrow> (None, cache(cat := None))))"

definition setCachedShapes ::
  "(string \<rightharpoonup> int) \<Rightarrow> ShapeCache \<Rightarrow> string \<Rightarrow> string \<Rightarrow> ShapeInfo list \<Rightarrow> ShapeCache" where
  "setCachedShapes mtime cache cat filePath shapes =
     (case mtime filePath of
        Some m \<Rightarrow> cache(cat \<mapsto> \<lparr> ce_shapes = shapes, lastModified = m, ce_category = cat \<rparr>)
      | None \<Rightarrow> cache)"

definition clearCache :: "ShapeCache \<Rightarrow> ShapeCache" where
  "clearCache cache = Map.empty"

definition clearCategoryCache :: "ShapeCache \<Rightarrow> string \<Rightarrow> ShapeCache" where
  "clearCategoryCache cache cat = cache(cat := None)"

section \<open>Preview generation (utils/previewGenerator.ts)\<close>

text \<open>
  \<^verbatim>\<open>generatePreview\<close>.  \<open>win32\<close> says whether \<^verbatim>\<open>process.platform\<close> is
  \<^verbatim>\<open>"win32"\<close>; \<open>rendered\<close> is the outcome of the two external steps (building a
  source document when no native one exists, and exporting it to the PNG), which reject
  the promise when they fail.  An error of the store update is caught and dropped.
\<close>

definition generatePreview ::
  "(string \<Rightarrow> string \<Rightarrow> int) \<Rightarrow> bool \<Rightarrow> error + unit \<Rightarrow> ShapeInfo \<Rightarrow> library
     \<Rightarrow> (error + string option) \<times> library" where
  "generatePreview localeCompare win32 rendered shape lib =
     (if \<not> win32 then (Inr None, lib)
      else
        (let outDir = join (join (libraryRoot lib) ''assets'') (category shape);
             outPng = join outDir (id_s shape @ ''.png'')
         in case rendered of
              Inl e \<Rightarrow> (Inl e, lib)
            | Inr u \<Rightarrow>
               (let rel = category shape @ ''/'' @ id_s shape @ ''.png'';
                    (r, lib') = updateShapeInLibrary localeCompare (id_s shape) (category shape)
                                  (no_updates\<lparr>p_preview := Some rel\<rparr>) lib
                in (Inr (Some outPng), lib'))))"

section \<open>Vocabulary of the properties\<close>

text \<open>
  A comparator is consistent when "not after" is total and transitive; this is what
  \<^verbatim>\<open>Array.prototype.sort\<close> needs to produce a defined order.
\<close>

definition consistent_comparator :: "('a \<Rightarrow> 'a \<Rightarrow> int) \<Rightarrow> bool" where
  "consistent_comparator cmp \<longleftrightarrow>
     (\<forall>a b. cmp a b \<le> 0 \<or> cmp b a \<le> 0) \<and>
     (\<forall>a b c. cmp a b \<le> 0 \<longrightarrow> cmp b c \<le> 0 \<longrightarrow> cmp a c \<le> 0)"

text \<open>Ascending by name in the order of the comparator.\<close>

definition sorted_by_name :: "(string \<Rightarrow> string \<Rightarrow> int) \<Rightarrow> ShapeInfo list \<Rightarrow> bool" where
  "sorted_by_name localeCompare xs =
     sorted_wrt (\<lambda>a b. localeCompare (name a) (name b) \<le> 0) xs"

text \<open>
  Ascending by name in case-sensitive lexical order: names are compared character by
  character by their codes, so every capital letter is in front of every small letter.
\<close>

definition sorted_lexically :: "ShapeInfo list \<Rightarrow> bool" where
  "sorted_lexically xs = sorted (map name xs)"

text \<open>
  The host's \<^verbatim>\<open>localeCompare\<close> on names of ASCII letters and digits, as the default
  collation of the runtime's locale data orders them: names are first compared without
  regard to case (digits in front of letters); names equal up to case are ordered by
  their first difference in case, the small letter first.  Other characters are
  compared by code here, which the real collation does not do.
\<close>

definition collation_key :: "string \<Rightarrow> string \<times> bool list" where
  "collation_key s = (map toLowerCase_char s, map isUpper s)"

definition localeCompare_ascii :: "string \<Rightarrow> string \<Rightarrow> int" where
  "localeCompare_ascii a b =
     (if collation_key a < collation_key b then - 1
      else if collation_key b < collation_key a then 1 else 0)"

text \<open>The list of records held by the store file of a category, when it holds one.\<close>

definition stored :: "library \<Rightarrow> string \<Rightarrow> ShapeInfo list option" where
  "stored lib cat =
     (case files lib (getCategoryFilePath lib cat) of
        Some (Readable (Shapes_JSON ys)) \<Rightarrow> Some ys
      | _ \<Rightarrow> None)"

text \<open>The leading segment of a relative path, and the category/preview invariant.\<close>

definition leading_segment :: "string \<Rightarrow> string" where
  "leading_segment path = takeWhile (\<lambda>c. c \<noteq> CHR ''/'') path"

definition preview_in_category :: "ShapeInfo \<Rightarrow> bool" where
  "preview_in_category s = (leading_segment (preview s) = category s)"

text \<open>The library after the store file of a category has been rewritten with a list.\<close>

definition with_store :: "library \<Rightarrow> string \<Rightarrow> ShapeInfo list \<Rightarrow> library" where
  "with_store lib cat ys =
     lib\<lparr>files := (files lib)(getCategoryFilePath lib cat \<mapsto> Readable (Shapes_JSON ys))\<rparr>"

text \<open>The comparator that \<^verbatim>\<open>saveCategoryShapes\<close> hands to the sort.\<close>

definition by_name :: "(string \<Rightarrow> string \<Rightarrow> int) \<Rightarrow> ShapeInfo \<Rightarrow> ShapeInfo \<Rightarrow> int" where
  "by_name localeCompare a b = localeCompare (name a) (name b)"

text \<open>An operation on the store succeeded when it returned instead of throwing.\<close>

definition succeeded :: "(error + 'a) \<times> library \<Rightarrow> bool" where
  "succeeded res = (case fst res of Inl e \<Rightarrow> False | Inr v \<Rightarrow> True)"

text \<open>
  The invariants of a category store: ids are unique, and every record is filed under
  its own category.
\<close>

definition store_wellformed :: "library \<Rightarrow> string \<Rightarrow> bool" where
  "store_wellformed lib cat =
     (distinct (map id_s (loadCategoryShapes lib cat)) \<and>
      list_all (\<lambda>x. category x = cat) (loadCategoryShapes lib cat))"

text \<open>Reading a numeral back: the value of a digit, and of a digit string in a radix.\<close>

definition digit_value :: "char \<Rightarrow> nat" where
  "digit_value c =
     (case map_of (zip (digit_chars @ lower_letters) [0..<36]) c of Some d \<Rightarrow> d | None \<Rightarrow> 0)"

definition parse_radix :: "nat \<Rightarrow> string \<Rightarrow> nat" where
  "parse_radix r s = foldl (\<lambda>a c. a * r + digit_value c) 0 s"

section \<open>Sample data\<close>

definition sample_definition :: PptxDefinition where
  "sample_definition =
     \<lparr> pd_type = ''rectangle'', pd_x = 1, pd_y = 1, pd_w = 2, pd_h = 2, pd_rotate = None,
       pd_adj = None, pd_rectRadius = None, pd_fill = None, pd_line = None \<rparr>"

definition sample_shape :: "string \<Rightarrow> string \<Rightarrow> string \<Rightarrow> string \<Rightarrow> ShapeInfo" where
  "sample_shape i n cat p =
     \<lparr> id_s = i, name = n, category = cat, description = [], tags = [], preview = p,
       pptxDefinition = sample_definition, nativePptx = None, nativeOnly = None \<rparr>"

definition empty_library :: library where
  "empty_library = \<lparr> libraryRoot = ''/lib'', files = Map.empty, write_error = Map.empty \<rparr>"

definition library_with :: "(string \<times> file_node) list \<Rightarrow> library" where
  "library_with fs = \<lparr> libraryRoot = ''/lib'', files = map_of fs, write_error = Map.empty \<rparr>"

definition arrow1_raw :: ExtractedShape where
  "arrow1_raw =
     \<lparr> e_name = ''Arrow1'', e_type = 39, autoShapeName = None, isGroup = None,
       position = \<lparr> pos_x = 1, pos_y = 1 \<rparr>, size_e = \<lparr> width = 2, height = 2 \<rparr>,
       rotation = 0, adjustments = None, nativePptxRelPath = None, isPicture = None,
       pngTempPath = None,
       fill_e = \<lparr> fill_color = None, fill_transparency = None \<rparr>,
       line_e = \<lparr> line_color = None, line_weight = None, line_transparency = None \<rparr> \<rparr>"

text \<open>
  A group whose native save failed in the capture script: the group flag is set and no
  native path is reported.
\<close>

definition group_raw :: ExtractedShape where
  "group_raw = arrow1_raw \<lparr> e_name := ''Group 7'', e_type := - 2, isGroup := Some True,
                           isPicture := Some False \<rparr>"

definition star_shape :: ShapeInfo where
  "star_shape = sample_shape ''s1'' ''Star'' ''basic'' ''basic/s1.png''"

definition sun_shape :: ShapeInfo where
  "sun_shape = (sample_shape ''s1'' ''Sun'' ''basic'' ''basic/s1.png'')\<lparr>tags := [''bright'']\<rparr>"

definition moon_shape :: ShapeInfo where
  "moon_shape = sample_shape ''m1'' ''moon'' ''basic'' ''basic/m1.png''"

definition old_star_shape :: ShapeInfo where
  "old_star_shape = sample_shape ''s1'' ''asterisk'' ''basic'' ''basic/placeholder.png''"

text \<open>A library whose store for "basic" holds two records.\<close>

definition basic_library :: library where
  "basic_library =
     library_with [(''/lib/shapes/basic.json'', Readable (Shapes_JSON [old_star_shape, moon_shape]))]"

text \<open>A library whose store for "basic" is not valid JSON.\<close>

definition corrupt_library :: library where
  "corrupt_library = library_with [(''/lib/shapes/basic.json'', Readable Invalid_JSON)]"

definition zebra_shape :: ShapeInfo where
  "zebra_shape = sample_shape ''z1'' ''Zebra'' ''basic'' ''basic/z1.png''"

definition apple_shape :: ShapeInfo where
  "apple_shape = sample_shape ''a1'' ''apple'' ''basic'' ''basic/a1.png''"

text \<open>A partial that renames a shape and also tries to change its id and category.\<close>

definition rename_updates :: ShapeInfo_partial where
  "rename_updates =
     no_updates\<lparr> p_id := Some ''other'', p_category := Some ''arrows'', p_name := Some ''Nova'' \<rparr>"

definition proposal_shape :: ShapeInfo where
  "proposal_shape = sample_shape ''p1'' ''Pitch'' ''proposals'' ''proposals/p1.png''"

text \<open>Modification times of the store file for "basic" at two moments.\<close>

definition mtime_at_put :: "string \<rightharpoonup> int" where
  "mtime_at_put = [''/lib/shapes/basic.json'' \<mapsto> 1700000000000]"

definition mtime_later :: "string \<rightharpoonup> int" where
  "mtime_later = [''/lib/shapes/basic.json'' \<mapsto> 1700000005000]"

text \<open>A record filed under "arrows" whose preview path still leads with "basic".\<close>

definition misfiled_shape :: ShapeInfo where
  "misfiled_shape = sample_shape ''r1'' ''Right'' ''arrows'' ''basic/placeholder.png''"

definition preview_updates :: ShapeInfo_partial where
  "preview_updates = no_updates\<lparr> p_preview := Some ''basic/star.png'' \<rparr>"

section \<open>Properties of the host primitives\<close>

lemma mset_insert_sorted: "mset (insert_sorted cmp x xs) = add_mset x (mset xs)"
  by (induction xs) simp_all

lemma mset_array_sort: "mset (array_sort cmp xs) = mset xs"
  unfolding array_sort_def by (induction xs) (simp_all add: mset_insert_sorted)

lemma set_array_sort: "set (array_sort cmp xs) = set xs"
  using mset_array_sort [of cmp xs] by (metis set_mset_mset)

lemma length_array_sort: "length (array_sort cmp xs) = length xs"
  using mset_array_sort [of cmp xs] by (metis size_mset)

lemma filter_array_sort_single:
  assumes "filter P xs = [y]"
  shows "filter P (array_sort cmp xs) = [y]"
proof -
  have "mset (filter P (array_sort cmp xs)) = filter_mset P (mset (array_sort cmp xs))"
    by simp
  also have "\<dots> = mset (filter P xs)"
    by (simp add: mset_array_sort)
  also have "\<dots> = {#y#}"
    using assms by simp
  finally show ?thesis
    by (metis mset_single_iff_right)
qed

lemma set_insert_sorted: "set (insert_sorted cmp x xs) = insert x (set xs)"
  by (induction xs) auto

lemma sorted_insert_sorted:
  assumes "consistent_comparator cmp" and "sorted_wrt (\<lambda>a b. cmp a b \<le> 0) xs"
  shows "sorted_wrt (\<lambda>a b. cmp a b \<le> 0) (insert_sorted cmp x xs)"
  using assms(2)
proof (induction xs)
  case Nil
  then show ?case by simp
next
  case (Cons y ys)
  have tot: "\<And>a b. cmp a b \<le> 0 \<or> cmp b a \<le> 0"
    and tr: "\<And>a b c. cmp a b \<le> 0 \<Longrightarrow> cmp b c \<le> 0 \<Longrightarrow> cmp a c \<le> 0"
    using assms(1) unfolding consistent_comparator_def by blast+
  show ?case
  proof (cases "cmp x y \<le> 0")
    case True
    with Cons.prems tr show ?thesis by auto
  next
    case False
    then have "cmp y x \<le> 0" using tot by blast
    with False Cons show ?thesis by (auto simp: set_insert_sorted)
  qed
qed

lemma sorted_array_sort:
  assumes "consistent_comparator cmp"
  shows "sorted_wrt (\<lambda>a b. cmp a b \<le> 0) (array_sort cmp xs)"
  unfolding array_sort_def
  by (induction xs) (simp_all add: sorted_insert_sorted [OF assms])

lemma consistent_comparator_name:
  assumes "consistent_comparator lc"
  shows "consistent_comparator (\<lambda>a b. lc (name a) (name b))"
  using assms unfolding consistent_comparator_def by blast

lemma consistent_localeCompare_ascii: "consistent_comparator localeCompare_ascii"
  unfolding consistent_comparator_def localeCompare_ascii_def
  by (auto split: if_splits)

lemma findIndex_ge: "- 1 \<le> findIndex P xs"
  by (induction xs) (simp_all add: Let_def)

lemma findIndex_none: "findIndex P xs = - 1 \<longleftrightarrow> (\<forall>x \<in> set xs. \<not> P x)"
proof (induction xs)
  case Nil
  then show ?case by simp
next
  case (Cons x xs)
  have "findIndex P xs + 1 \<noteq> - 1" using findIndex_ge [of P xs] by simp
  with Cons show ?case by (simp add: Let_def)
qed

lemma findIndex_split:
  assumes "findIndex P xs \<noteq> - 1"
  shows "\<exists>ys x zs. xs = ys @ x # zs \<and> P x \<and> (\<forall>y \<in> set ys. \<not> P y) \<and>
           nat (findIndex P xs) = length ys"
  using assms
proof (induction xs)
  case Nil
  then show ?case by simp
next
  case (Cons a xs)
  show ?case
  proof (cases "P a")
    case True
    then have "a # xs = [] @ a # xs \<and> P a \<and> (\<forall>y \<in> set []. \<not> P y) \<and>
        nat (findIndex P (a # xs)) = length ([] :: 'a list)"
      by simp
    then show ?thesis by blast
  next
    case False
    with Cons.prems have ne: "findIndex P xs \<noteq> - 1"
      by (simp add: Let_def split: if_splits)
    from Cons.IH [OF ne] obtain ys x zs where
      h: "xs = ys @ x # zs" "P x" "\<forall>y \<in> set ys. \<not> P y" "nat (findIndex P xs) = length ys"
      by blast
    have ge: "0 \<le> findIndex P xs" using findIndex_ge [of P xs] ne by linarith
    have "a # xs = (a # ys) @ x # zs \<and> P x \<and> (\<forall>y \<in> set (a # ys). \<not> P y) \<and>
        nat (findIndex P (a # xs)) = length (a # ys)"
      using h False ne ge by (simp add: Let_def nat_add_distrib)
    then show ?thesis by blast
  qed
qed

lemma digit_value_digit_char_all:
  "\<forall>d \<in> set [0..<36]. digit_value (digit_char d) = d"
  by code_simp

lemma digit_value_digit_char: "d < 36 \<Longrightarrow> digit_value (digit_char d) = d"
  using digit_value_digit_char_all by simp

lemma parse_radix_snoc: "parse_radix r (s @ [c]) = parse_radix r s * r + digit_value c"
  by (simp add: parse_radix_def)

lemma parse_radix_toString_radix:
  assumes "2 \<le> r" and "r \<le> 36"
  shows "parse_radix r (toString_radix r n) = n"
  using assms
proof (induction r n rule: toString_radix.induct)
  case (1 r n)
  show ?case
  proof (cases "n < r")
    case True
    with "1.prems" have "n < 36" by simp
    with True show ?thesis
      by (simp add: toString_radix.simps [of r n] parse_radix_def digit_value_digit_char)
  next
    case False
    with "1.prems" have ih: "parse_radix r (toString_radix r (n div r)) = n div r"
      using "1.IH" by simp
    have "n mod r < 36" using "1.prems" by (simp add: less_le_trans [OF mod_less_divisor])
    with False "1.prems" ih show ?thesis
      by (simp add: toString_radix.simps [of r n] parse_radix_snoc digit_value_digit_char)
  qed
qed

section \<open>Capture normalizer: the arrow scenario and native-only records\<close>

lemma chooseType_39:
  assumes "autoShapeName e = None" "e_type e = 39"
  shows "chooseType e = ''rightArrow''"
  using assms by (simp add: chooseType_def AUTOSHAPE_TYPE_MAP_def)

lemma category_rightArrow: "getCategoryFromType ''rightArrow'' = ''arrows''"
  by (simp add: getCategoryFromType_def)

lemma sanitize_Arrow1: "replace_non_az09 ''-'' (toLowerCase ''Arrow1'') = ''arrow1''"
  by (simp add: replace_non_az09_def toLowerCase_def toLowerCase_char_def is_az09_def
      upper_letters_def lower_letters_def digit_chars_def)

text \<open>
  Claim C8.  Normalising a raw shape named "Arrow1" with numeric type 39, no symbolic
  type name and no group or picture flag (and no custom name) gives the category
  "arrows", the kind "rightArrow" and the id "captured-arrow1-" followed by the base-36
  numeral of the clock reading, which reads back as the clock reading.
\<close>

theorem C8_arrow1_scenario:
  assumes "e_name e = ''Arrow1''" and "e_type e = 39" and "autoShapeName e = None"
    and "isGroup e \<noteq> Some True" and "isPicture e \<noteq> Some True"
  shows "category (mapToShapeInfo now e None) = ''arrows'' \<and>
         pd_type (pptxDefinition (mapToShapeInfo now e None)) = ''rightArrow'' \<and>
         id_s (mapToShapeInfo now e None) = ''captured-arrow1-'' @ toString_radix 36 now \<and>
         parse_radix 36 (toString_radix 36 now) = now"
proof -
  have ct: "chooseType e = ''rightArrow''"
    using assms(2,3) by (rule chooseType_39 [rotated])
  have "category (mapToShapeInfo now e None) = ''arrows''"
    using assms(4,5) by (simp add: mapToShapeInfo_def Let_def truthy_flag_def ct category_rightArrow)
  moreover have "pd_type (pptxDefinition (mapToShapeInfo now e None)) = ''rightArrow''"
    using assms(4,5) by (simp add: mapToShapeInfo_def Let_def truthy_flag_def ct)
  moreover have "id_s (mapToShapeInfo now e None) = ''captured-arrow1-'' @ toString_radix 36 now"
    using assms(1) by (simp add: mapToShapeInfo_def Let_def or_else_def generateShapeId_def sanitize_Arrow1)
  moreover have "parse_radix 36 (toString_radix 36 now) = now"
    by (rule parse_radix_toString_radix) simp_all
  ultimately show ?thesis by blast
qed

text \<open>The scenario at the clock reading 1234, whose base-36 digits are "ya".\<close>

theorem C8_arrow1_scenario_witness:
  "e_name arrow1_raw = ''Arrow1'' \<and> e_type arrow1_raw = 39 \<and> autoShapeName arrow1_raw = None \<and>
   isGroup arrow1_raw \<noteq> Some True \<and> isPicture arrow1_raw \<noteq> Some True \<and>
   category (mapToShapeInfo 1234 arrow1_raw None) = ''arrows'' \<and>
   pd_type (pptxDefinition (mapToShapeInfo 1234 arrow1_raw None)) = ''rightArrow'' \<and>
   id_s (mapToShapeInfo 1234 arrow1_raw None) = ''captured-arrow1-ya''"
proof -
  have h: "e_name arrow1_raw = ''Arrow1''" "e_type arrow1_raw = 39"
    "autoShapeName arrow1_raw = None" "isGroup arrow1_raw \<noteq> Some True"
    "isPicture arrow1_raw \<noteq> Some True"
    by (simp_all add: arrow1_raw_def)
  have t: "toString_radix 36 1234 = ''ya''"
    by (simp add: toString_radix.simps [of 36 1234] toString_radix.simps [of 36 34]
        digit_char_def digit_chars_def lower_letters_def)
  from C8_arrow1_scenario [OF h, of 1234] h t show ?thesis by simp
qed

text \<open>
  Claim C7 as stated fails: a group captured without a native path is normalised to a
  record that is native-only and has no native artifact path.
\<close>

theorem C7_counterexample:
  "nativeOnly (mapToShapeInfo 0 group_raw None) = Some True \<and>
   nativePptx (mapToShapeInfo 0 group_raw None) = None"
  by (simp add: mapToShapeInfo_def Let_def truthy_flag_def group_raw_def arrow1_raw_def)

text \<open>
  Claim C7, amended.  Normalisation marks a record native-only exactly when the raw shape
  is flagged as a group or a picture, and copies the raw native path unchanged; so a
  native-only record carries a native artifact path whenever the raw capture carried
  one.
\<close>

theorem C7_native_reference_copied:
  "nativeOnly (mapToShapeInfo now e customName) =
     (if isGroup e = Some True \<or> isPicture e = Some True then Some True else None) \<and>
   nativePptx (mapToShapeInfo now e customName) = nativePptxRelPath e \<and>
   (nativePptxRelPath e \<noteq> None \<longrightarrow>
      nativeOnly (mapToShapeInfo now e customName) = Some True \<longrightarrow>
      nativePptx (mapToShapeInfo now e customName) \<noteq> None)"
  by (simp add: mapToShapeInfo_def Let_def truthy_flag_def)

text \<open>A group captured together with its native file.\<close>

theorem C7_native_reference_copied_witness:
  "nativePptxRelPath (group_raw\<lparr>nativePptxRelPath := Some ''native/shape_captured_5.pptx''\<rparr>) \<noteq> None \<and>
   nativeOnly (mapToShapeInfo 0 (group_raw\<lparr>nativePptxRelPath := Some ''native/shape_captured_5.pptx''\<rparr>) None) = Some True \<and>
   nativePptx (mapToShapeInfo 0 (group_raw\<lparr>nativePptxRelPath := Some ''native/shape_captured_5.pptx''\<rparr>) None) \<noteq> None"
proof -
  let ?e = "group_raw\<lparr>nativePptxRelPath := Some ''native/shape_captured_5.pptx''\<rparr>"
  have h1: "nativePptxRelPath ?e \<noteq> None" by simp
  have g: "isGroup ?e = Some True" by (simp add: group_raw_def)
  have h2: "nativeOnly (mapToShapeInfo 0 ?e None) = Some True"
    using C7_native_reference_copied [of 0 ?e None] g by simp
  have "nativePptx (mapToShapeInfo 0 ?e None) \<noteq> None"
    using C7_native_reference_copied [of 0 ?e None] h1 h2 by blast
  with h1 h2 show ?thesis by blast
qed

section \<open>Shape store: upsert, missing stores, unknown ids, update\<close>

lemma getCategoryFilePath_with_store [simp]:
  "getCategoryFilePath (with_store lib cat ys) c = getCategoryFilePath lib c"
  by (simp add: getCategoryFilePath_def getShapesDir_def with_store_def)

lemma getCategoryFilePath_inj:
  "getCategoryFilePath lib c = getCategoryFilePath lib c' \<longleftrightarrow> c = c'"
  by (simp add: getCategoryFilePath_def join_def)

lemma write_error_with_store [simp]:
  "write_error (with_store lib cat ys) = write_error lib"
  by (simp add: with_store_def)

lemma loadCategoryShapes_files:
  "loadCategoryShapes lib cat =
     (case files lib (getCategoryFilePath lib cat) of
        Some (Readable (Shapes_JSON ys)) \<Rightarrow> ys
      | _ \<Rightarrow> [])"
  by (simp add: loadCategoryShapes_def existsSync_def readFileSync_def JSON_parse_def Let_def
      split: option.splits file_node.splits json_text.splits)

lemma load_with_store_same [simp]: "loadCategoryShapes (with_store lib cat ys) cat = ys"
  by (simp add: loadCategoryShapes_files) (simp add: with_store_def)

lemma load_with_store_other:
  "c \<noteq> cat \<Longrightarrow> loadCategoryShapes (with_store lib cat ys) c = loadCategoryShapes lib c"
  by (simp add: loadCategoryShapes_files) (simp add: with_store_def getCategoryFilePath_inj)

lemma stored_with_store [simp]: "stored (with_store lib cat ys) cat = Some ys"
  by (simp add: stored_def) (simp add: with_store_def)

lemma saveCategoryShapes_ok:
  assumes "write_error lib (getCategoryFilePath lib cat) = None"
  shows "saveCategoryShapes lc lib cat xs =
           (Inr (), with_store lib cat (array_sort (by_name lc) xs))"
  using assms
  by (simp add: saveCategoryShapes_def writeFileSync_def JSON_stringify_def Let_def
      with_store_def by_name_def [abs_def])

lemma saveCategoryShapes_fails:
  assumes "write_error lib (getCategoryFilePath lib cat) = Some msg"
  shows "\<exists>m. saveCategoryShapes lc lib cat xs = (Inl (Error m), lib)"
  using assms by (simp add: saveCategoryShapes_def writeFileSync_def Let_def)

lemma saveCategoryShapes_cases:
  "(\<exists>m. saveCategoryShapes lc lib cat xs = (Inl (Error m), lib)) \<or>
   saveCategoryShapes lc lib cat xs = (Inr (), with_store lib cat (array_sort (by_name lc) xs))"
  using saveCategoryShapes_ok [of lib cat lc xs] saveCategoryShapes_fails [of lib cat _ lc xs]
  by (cases "write_error lib (getCategoryFilePath lib cat)") auto

lemma addShapeToLibrary_ok:
  assumes "write_error lib (getCategoryFilePath lib (category s)) = None"
  shows "addShapeToLibrary lc s lib =
     (Inr (getCategoryFilePath lib (category s)),
      with_store lib (category s)
        (array_sort (by_name lc)
           (let shapes = loadCategoryShapes lib (category s);
                k = findIndex (\<lambda>x. id_s x = id_s s) shapes
            in if k \<noteq> - 1 then shapes[nat k := s] else shapes @ [s])))"
  by (simp add: addShapeToLibrary_def Let_def saveCategoryShapes_ok [OF assms])

lemma filter_upsert:
  assumes "length (filter P xs) \<le> 1" and "P y"
  shows "filter P (if findIndex P xs \<noteq> - 1 then xs[nat (findIndex P xs) := y] else xs @ [y]) = [y]"
proof (cases "findIndex P xs = - 1")
  case True
  then have "filter P xs = []" by (simp add: findIndex_none)
  with True assms(2) show ?thesis by simp
next
  case False
  from findIndex_split [OF False] obtain ys x zs where
    h: "xs = ys @ x # zs" "P x" "\<forall>y \<in> set ys. \<not> P y" "nat (findIndex P xs) = length ys"
    by blast
  have ys: "filter P ys = []" using h(3) by simp
  have "length (filter P zs) = 0" using assms(1) h(1,2) ys by simp
  then have zs: "filter P zs = []" by simp
  have "xs[nat (findIndex P xs) := y] = ys @ y # zs"
    using h(1,4) by simp
  with False ys zs assms(2) show ?thesis by simp
qed

text \<open>
  Claim C2.  In a category store that holds at most one record with the id (the store's
  uniqueness invariant), adding \<open>r\<close> and then \<open>r'\<close> with the same id to the same
  category succeeds twice when the store file can be written, and leaves exactly one
  record with that id in the persisted list: \<open>r'\<close>.
\<close>

theorem C2_add_twice_upserts:
  assumes "write_error lib (getCategoryFilePath lib (category r)) = None"
    and "id_s r' = id_s r" and "category r' = category r"
    and "length (filter (\<lambda>s. id_s s = id_s r) (loadCategoryShapes lib (category r))) \<le> 1"
  shows "fst (addShapeToLibrary lc r lib) = Inr (getCategoryFilePath lib (category r)) \<and>
         fst (addShapeToLibrary lc r' (snd (addShapeToLibrary lc r lib))) =
           Inr (getCategoryFilePath lib (category r)) \<and>
         filter (\<lambda>s. id_s s = id_s r)
           (loadCategoryShapes (snd (addShapeToLibrary lc r' (snd (addShapeToLibrary lc r lib))))
              (category r)) = [r']"
proof -
  let ?P = "\<lambda>s. id_s s = id_s r"
  let ?cat = "category r"
  let ?xs = "loadCategoryShapes lib ?cat"
  let ?xs1 = "array_sort (by_name lc)
      (if findIndex ?P ?xs \<noteq> - 1 then ?xs[nat (findIndex ?P ?xs) := r] else ?xs @ [r])"
  let ?lib1 = "with_store lib ?cat ?xs1"
  let ?xs2 = "array_sort (by_name lc)
      (if findIndex ?P ?xs1 \<noteq> - 1 then ?xs1[nat (findIndex ?P ?xs1) := r'] else ?xs1 @ [r'])"
  let ?lib2 = "with_store ?lib1 ?cat ?xs2"
  have a1: "addShapeToLibrary lc r lib = (Inr (getCategoryFilePath lib ?cat), ?lib1)"
    using addShapeToLibrary_ok [OF assms(1), of lc] by (simp add: Let_def)
  have f1: "filter ?P ?xs1 = [r]"
    by (rule filter_array_sort_single) (rule filter_upsert [OF assms(4)], simp)
  have w1: "write_error ?lib1 (getCategoryFilePath ?lib1 (category r')) = None"
    using assms(1,3) by simp
  have a2: "addShapeToLibrary lc r' ?lib1 = (Inr (getCategoryFilePath lib ?cat), ?lib2)"
    using addShapeToLibrary_ok [OF w1, of lc] assms(2,3) by (simp add: Let_def)
  have "length (filter ?P ?xs1) \<le> 1" using f1 by simp
  then have f2: "filter ?P ?xs2 = [r']"
    using assms(2) by (intro filter_array_sort_single filter_upsert) simp_all
  have "filter ?P (loadCategoryShapes ?lib2 ?cat) = [r']"
    using f2 by simp
  with a1 a2 show ?thesis by simp
qed

lemma basic_path: "getCategoryFilePath basic_library ''basic'' = ''/lib/shapes/basic.json''"
  by (simp add: getCategoryFilePath_def getShapesDir_def join_def basic_library_def library_with_def)

lemma load_basic_library: "loadCategoryShapes basic_library ''basic'' = [old_star_shape, moon_shape]"
  by (simp add: loadCategoryShapes_files basic_path) (simp add: basic_library_def library_with_def)

text \<open>
  Adding "Star" and then "Sun" under the id of a record that the store already holds.
\<close>

theorem C2_add_twice_upserts_witness:
  "write_error basic_library (getCategoryFilePath basic_library (category star_shape)) = None \<and>
   id_s sun_shape = id_s star_shape \<and> category sun_shape = category star_shape \<and>
   length (filter (\<lambda>s. id_s s = id_s star_shape)
             (loadCategoryShapes basic_library (category star_shape))) \<le> 1 \<and>
   filter (\<lambda>s. id_s s = id_s star_shape)
     (loadCategoryShapes
        (snd (addShapeToLibrary localeCompare_ascii sun_shape
               (snd (addShapeToLibrary localeCompare_ascii star_shape basic_library))))
        (category star_shape)) = [sun_shape]"
proof -
  have c: "category star_shape = ''basic''"
    by (simp add: star_shape_def sample_shape_def)
  have h1: "write_error basic_library (getCategoryFilePath basic_library (category star_shape)) = None"
    by (simp add: basic_library_def library_with_def)
  have h2: "id_s sun_shape = id_s star_shape"
    by (simp add: sun_shape_def star_shape_def sample_shape_def)
  have h3: "category sun_shape = category star_shape"
    by (simp add: sun_shape_def star_shape_def sample_shape_def)
  have h4: "length (filter (\<lambda>s. id_s s = id_s star_shape)
             (loadCategoryShapes basic_library (category star_shape))) \<le> 1"
    by (simp add: c load_basic_library)
      (simp add: old_star_shape_def moon_shape_def star_shape_def sample_shape_def)
  from C2_add_twice_upserts [OF h1 h2 h3 h4, of localeCompare_ascii] h1 h2 h3 h4
  show ?thesis by blast
qed

text \<open>
  Claim C3.  When the store file of a category is absent, or its text is not valid JSON,
  listing the category returns the empty list; \<open>loadCategoryShapes\<close> has no error
  result, the failures of reading and parsing are caught inside it.
\<close>

theorem C3_missing_or_corrupt_store_lists_empty:
  assumes "files lib (getCategoryFilePath lib cat) = None \<or>
           files lib (getCategoryFilePath lib cat) = Some (Readable Invalid_JSON)"
  shows "loadCategoryShapes lib cat = []"
  using assms
  by (auto simp: loadCategoryShapes_def existsSync_def readFileSync_def JSON_parse_def Let_def)

lemma basic_path_any:
  "libraryRoot lib = ''/lib'' \<Longrightarrow> getCategoryFilePath lib ''basic'' = ''/lib/shapes/basic.json''"
  by (simp add: getCategoryFilePath_def getShapesDir_def join_def)

text \<open>
  A library without any store file, and one whose store for "basic" is corrupt.
\<close>

theorem C3_missing_or_corrupt_store_lists_empty_witness:
  "files empty_library (getCategoryFilePath empty_library ''basic'') = None \<and>
   loadCategoryShapes empty_library ''basic'' = [] \<and>
   files corrupt_library (getCategoryFilePath corrupt_library ''basic'') = Some (Readable Invalid_JSON) \<and>
   loadCategoryShapes corrupt_library ''basic'' = []"
proof -
  have h1: "files empty_library (getCategoryFilePath empty_library ''basic'') = None"
    by (simp add: empty_library_def)
  have h2: "files corrupt_library (getCategoryFilePath corrupt_library ''basic'') =
      Some (Readable Invalid_JSON)"
    by (simp add: basic_path_any corrupt_library_def library_with_def)
  have c1: "loadCategoryShapes empty_library ''basic'' = []"
    by (rule C3_missing_or_corrupt_store_lists_empty) (rule disjI1 [OF h1])
  have c2: "loadCategoryShapes corrupt_library ''basic'' = []"
    by (rule C3_missing_or_corrupt_store_lists_empty) (rule disjI2 [OF h2])
  from h1 c1 h2 c2 show ?thesis by blast
qed

text \<open>
  Claim C4.  When no record of the category's store has the id, update and remove both
  fail with the error "Shape with ID '...' not found in ... category", and the library
  they leave behind is the one they found: no file is written.
\<close>

theorem C4_unknown_id_is_not_found:
  assumes "\<forall>s \<in> set (loadCategoryShapes lib cat). id_s s \<noteq> i"
  shows "updateShapeInLibrary lc i cat updates lib = (Inl (Error (not_found_message i cat)), lib) \<and>
         removeShapeFromLibrary lc i cat lib = (Inl (Error (not_found_message i cat)), lib) \<and>
         files (snd (updateShapeInLibrary lc i cat updates lib)) = files lib \<and>
         files (snd (removeShapeFromLibrary lc i cat lib)) = files lib"
proof -
  have k: "findIndex (\<lambda>s. id_s s = i) (loadCategoryShapes lib cat) = - 1"
    using assms by (simp add: findIndex_none)
  have f: "filter (\<lambda>s. id_s s \<noteq> i) (loadCategoryShapes lib cat) = loadCategoryShapes lib cat"
    using assms by simp
  have u: "updateShapeInLibrary lc i cat updates lib = (Inl (Error (not_found_message i cat)), lib)"
    using k by (simp add: updateShapeInLibrary_def Let_def)
  have r: "removeShapeFromLibrary lc i cat lib = (Inl (Error (not_found_message i cat)), lib)"
    using f by (simp add: removeShapeFromLibrary_def Let_def)
  from u r show ?thesis by simp
qed

text \<open>
  The scenario of the specification: removing "missing-id" from "basic".
\<close>

theorem C4_unknown_id_is_not_found_witness:
  "loadCategoryShapes basic_library ''basic'' = [old_star_shape, moon_shape] \<and>
   id_s old_star_shape \<noteq> ''missing-id'' \<and> id_s moon_shape \<noteq> ''missing-id'' \<and>
   removeShapeFromLibrary localeCompare_ascii ''missing-id'' ''basic'' basic_library =
     (Inl (Error (not_found_message ''missing-id'' ''basic'')), basic_library) \<and>
   updateShapeInLibrary localeCompare_ascii ''missing-id'' ''basic'' no_updates basic_library =
     (Inl (Error (not_found_message ''missing-id'' ''basic'')), basic_library) \<and>
   not_found_message ''missing-id'' ''basic'' =
     ''Shape with ID '' @ [CHR 0x27] @ ''missing-id'' @ [CHR 0x27] @ '' not found in basic category''"
proof -
  have l: "loadCategoryShapes basic_library ''basic'' = [old_star_shape, moon_shape]"
    by (rule load_basic_library)
  have i1: "id_s old_star_shape \<noteq> ''missing-id''"
    by (simp add: old_star_shape_def sample_shape_def)
  have i2: "id_s moon_shape \<noteq> ''missing-id''"
    by (simp add: moon_shape_def sample_shape_def)
  have h: "\<forall>s \<in> set (loadCategoryShapes basic_library ''basic''). id_s s \<noteq> ''missing-id''"
    using l i1 i2 by simp
  have m: "not_found_message ''missing-id'' ''basic'' =
     ''Shape with ID '' @ [CHR 0x27] @ ''missing-id'' @ [CHR 0x27] @ '' not found in basic category''"
    by (simp add: not_found_message_def)
  from C4_unknown_id_is_not_found [OF h, of localeCompare_ascii no_updates] l i1 i2 m
  show ?thesis by blast
qed

lemma updateShapeInLibrary_found:
  assumes "findIndex (\<lambda>s. id_s s = i) (loadCategoryShapes lib cat) \<noteq> - 1"
  shows "updateShapeInLibrary lc i cat updates lib =
     saveCategoryShapes lc lib cat
       ((loadCategoryShapes lib cat)
          [nat (findIndex (\<lambda>s. id_s s = i) (loadCategoryShapes lib cat)) :=
             spread_updates
               (loadCategoryShapes lib cat ! nat (findIndex (\<lambda>s. id_s s = i) (loadCategoryShapes lib cat)))
               updates i cat])"
  using assms by (simp add: updateShapeInLibrary_def Let_def)

lemma filter_single_split:
  assumes "filter P xs = [old]"
  shows "\<exists>ys zs. xs = ys @ old # zs \<and> P old \<and> filter P ys = [] \<and> filter P zs = [] \<and>
           findIndex P xs \<noteq> - 1 \<and> nat (findIndex P xs) = length ys"
proof -
  have "old \<in> set (filter P xs)" using assms by simp
  then have ex: "\<not> (\<forall>x \<in> set xs. \<not> P x)" by auto
  then have ne: "findIndex P xs \<noteq> - 1" by (simp add: findIndex_none)
  from findIndex_split [OF ne] obtain ys x zs where
    h: "xs = ys @ x # zs" "P x" "\<forall>y \<in> set ys. \<not> P y" "nat (findIndex P xs) = length ys"
    by blast
  have ys: "filter P ys = []" using h(3) by simp
  have "filter P xs = x # filter P zs" using h(1,2) ys by simp
  with assms have "x = old" "filter P zs = []" by simp_all
  with h ys ne show ?thesis by blast
qed

text \<open>
  Claim C9.  For a record that exists in the category's store (once, filed under that
  category) and a writable store file, update succeeds and the stored record with the id
  afterwards is the old record with the partial's fields merged in, except that its id
  and its category are those it had before the call, whatever id or category the partial
  supplies.  The other records of the store are the same as before.
\<close>

theorem C9_update_keeps_id_and_category:
  assumes "write_error lib (getCategoryFilePath lib cat) = None"
    and "filter (\<lambda>s. id_s s = i) (loadCategoryShapes lib cat) = [old]"
    and "category old = cat"
  shows "fst (updateShapeInLibrary lc i cat updates lib) = Inr () \<and>
         filter (\<lambda>s. id_s s = i)
           (loadCategoryShapes (snd (updateShapeInLibrary lc i cat updates lib)) cat) =
           [spread_updates old updates i cat] \<and>
         id_s (spread_updates old updates i cat) = id_s old \<and>
         category (spread_updates old updates i cat) = category old \<and>
         name (spread_updates old updates i cat) =
           (case p_name updates of None \<Rightarrow> name old | Some v \<Rightarrow> v) \<and>
         description (spread_updates old updates i cat) =
           (case p_description updates of None \<Rightarrow> description old | Some v \<Rightarrow> v) \<and>
         tags (spread_updates old updates i cat) =
           (case p_tags updates of None \<Rightarrow> tags old | Some v \<Rightarrow> v) \<and>
         preview (spread_updates old updates i cat) =
           (case p_preview updates of None \<Rightarrow> preview old | Some v \<Rightarrow> v) \<and>
         pptxDefinition (spread_updates old updates i cat) =
           (case p_pptxDefinition updates of None \<Rightarrow> pptxDefinition old | Some v \<Rightarrow> v) \<and>
         nativePptx (spread_updates old updates i cat) =
           (case p_nativePptx updates of None \<Rightarrow> nativePptx old | Some v \<Rightarrow> v) \<and>
         nativeOnly (spread_updates old updates i cat) =
           (case p_nativeOnly updates of None \<Rightarrow> nativeOnly old | Some v \<Rightarrow> v) \<and>
         mset (filter (\<lambda>s. id_s s \<noteq> i)
           (loadCategoryShapes (snd (updateShapeInLibrary lc i cat updates lib)) cat)) =
           mset (filter (\<lambda>s. id_s s \<noteq> i) (loadCategoryShapes lib cat))"
proof -
  let ?P = "\<lambda>s. id_s s = i"
  let ?xs = "loadCategoryShapes lib cat"
  let ?new = "spread_updates old updates i cat"
  from filter_single_split [OF assms(2)] obtain ys zs where
    h: "?xs = ys @ old # zs" "id_s old = i" "filter ?P ys = []" "filter ?P zs = []"
       "findIndex ?P ?xs \<noteq> - 1" "nat (findIndex ?P ?xs) = length ys"
    by blast
  have at: "?xs ! nat (findIndex ?P ?xs) = old"
    using h(1,6) by simp
  have upd: "?xs[nat (findIndex ?P ?xs) := ?new] = ys @ ?new # zs"
    using h(1,6) by simp
  have u: "updateShapeInLibrary lc i cat updates lib =
      (Inr (), with_store lib cat (array_sort (by_name lc) (ys @ ?new # zs)))"
    using updateShapeInLibrary_found [OF h(5), of lc updates] at upd
      saveCategoryShapes_ok [OF assms(1), of lc]
    by simp
  have idn: "id_s ?new = i" by (simp add: spread_updates_def)
  have f: "filter ?P (ys @ ?new # zs) = [?new]"
    using h(3,4) idn by simp
  have one: "filter ?P (array_sort (by_name lc) (ys @ ?new # zs)) = [?new]"
    by (rule filter_array_sort_single [OF f])
  have "mset (filter (\<lambda>s. id_s s \<noteq> i) (array_sort (by_name lc) (ys @ ?new # zs))) =
        filter_mset (\<lambda>s. id_s s \<noteq> i) (mset (ys @ ?new # zs))"
    by (simp only: mset_filter mset_array_sort)
  also have "\<dots> = mset (filter (\<lambda>s. id_s s \<noteq> i) ?xs)"
    using h(1,2) idn by simp
  finally have rest: "mset (filter (\<lambda>s. id_s s \<noteq> i) (array_sort (by_name lc) (ys @ ?new # zs))) =
        mset (filter (\<lambda>s. id_s s \<noteq> i) ?xs)" .
  have fields: "id_s ?new = id_s old" "category ?new = category old"
    using h(2) assms(3) by (simp_all add: spread_updates_def)
  show ?thesis
    using u one rest fields by (simp add: spread_updates_def)
qed

text \<open>
  Renaming a stored shape with a partial that also carries another id and category.
\<close>

theorem C9_update_keeps_id_and_category_witness:
  "write_error basic_library (getCategoryFilePath basic_library ''basic'') = None \<and>
   filter (\<lambda>s. id_s s = ''s1'') (loadCategoryShapes basic_library ''basic'') = [old_star_shape] \<and>
   category old_star_shape = ''basic'' \<and>
   fst (updateShapeInLibrary localeCompare_ascii ''s1'' ''basic'' rename_updates basic_library) = Inr () \<and>
   filter (\<lambda>s. id_s s = ''s1'')
     (loadCategoryShapes
        (snd (updateShapeInLibrary localeCompare_ascii ''s1'' ''basic'' rename_updates basic_library))
        ''basic'') = [spread_updates old_star_shape rename_updates ''s1'' ''basic''] \<and>
   p_id rename_updates = Some ''other'' \<and> p_category rename_updates = Some ''arrows'' \<and>
   id_s (spread_updates old_star_shape rename_updates ''s1'' ''basic'') = ''s1'' \<and>
   category (spread_updates old_star_shape rename_updates ''s1'' ''basic'') = ''basic'' \<and>
   name (spread_updates old_star_shape rename_updates ''s1'' ''basic'') = ''Nova''"
proof -
  have h1: "write_error basic_library (getCategoryFilePath basic_library ''basic'') = None"
    by (simp add: basic_library_def library_with_def)
  have h2: "filter (\<lambda>s. id_s s = ''s1'') (loadCategoryShapes basic_library ''basic'') = [old_star_shape]"
    by (simp add: load_basic_library) (simp add: old_star_shape_def moon_shape_def sample_shape_def)
  have h3: "category old_star_shape = ''basic''"
    by (simp add: old_star_shape_def sample_shape_def)
  have p: "p_id rename_updates = Some ''other''" "p_category rename_updates = Some ''arrows''"
    "p_name rename_updates = Some ''Nova''"
    by (simp_all add: rename_updates_def no_updates_def)
  have o: "id_s old_star_shape = ''s1''"
    by (simp add: old_star_shape_def sample_shape_def)
  from C9_update_keeps_id_and_category [OF h1 h2 h3, of localeCompare_ascii rename_updates]
    h1 h2 h3 p o
  show ?thesis by simp
qed

section \<open>Ordering of the persisted list\<close>

lemma sorted_by_name_array_sort:
  assumes "consistent_comparator lc"
  shows "sorted_by_name lc (array_sort (by_name lc) xs)"
  using sorted_array_sort [OF consistent_comparator_name [OF assms], of xs]
  by (simp add: sorted_by_name_def by_name_def [abs_def])

lemma saveCategoryShapes_succeeded:
  "succeeded (saveCategoryShapes lc lib cat xs) \<longleftrightarrow>
     write_error lib (getCategoryFilePath lib cat) = None"
  by (cases "write_error lib (getCategoryFilePath lib cat)")
     (simp_all add: succeeded_def saveCategoryShapes_def writeFileSync_def Let_def)

lemma saveCategoryShapes_sorted:
  assumes "consistent_comparator lc" and "succeeded (saveCategoryShapes lc lib cat xs)"
  shows "\<exists>ys. stored (snd (saveCategoryShapes lc lib cat xs)) cat = Some ys \<and>
              sorted_by_name lc ys"
proof -
  have w: "write_error lib (getCategoryFilePath lib cat) = None"
    using assms(2) by (simp add: saveCategoryShapes_succeeded)
  show ?thesis
    by (simp add: saveCategoryShapes_ok [OF w] sorted_by_name_array_sort [OF assms(1)])
qed

lemma addShapeToLibrary_as_save:
  "succeeded (addShapeToLibrary lc s lib) =
     succeeded (saveCategoryShapes lc lib (category s)
       (if findIndex (\<lambda>x. id_s x = id_s s) (loadCategoryShapes lib (category s)) \<noteq> - 1
        then (loadCategoryShapes lib (category s))
               [nat (findIndex (\<lambda>x. id_s x = id_s s) (loadCategoryShapes lib (category s))) := s]
        else loadCategoryShapes lib (category s) @ [s])) \<and>
   snd (addShapeToLibrary lc s lib) =
     snd (saveCategoryShapes lc lib (category s)
       (if findIndex (\<lambda>x. id_s x = id_s s) (loadCategoryShapes lib (category s)) \<noteq> - 1
        then (loadCategoryShapes lib (category s))
               [nat (findIndex (\<lambda>x. id_s x = id_s s) (loadCategoryShapes lib (category s))) := s]
        else loadCategoryShapes lib (category s) @ [s]))"
  by (simp add: addShapeToLibrary_def Let_def succeeded_def split: prod.splits sum.splits)

lemma updateShapeInLibrary_succeeded:
  assumes "succeeded (updateShapeInLibrary lc i cat updates lib)"
  shows "findIndex (\<lambda>s. id_s s = i) (loadCategoryShapes lib cat) \<noteq> - 1"
  using assms by (auto simp: updateShapeInLibrary_def Let_def succeeded_def)

lemma removeShapeFromLibrary_succeeded:
  assumes "succeeded (removeShapeFromLibrary lc i cat lib)"
  shows "removeShapeFromLibrary lc i cat lib =
           saveCategoryShapes lc lib cat (filter (\<lambda>s. id_s s \<noteq> i) (loadCategoryShapes lib cat))"
  using assms by (auto simp: removeShapeFromLibrary_def Let_def succeeded_def)

text \<open>
  Claim C5, amended.  Every write of a category store goes through
  \<open>saveCategoryShapes\<close>, and whenever it, add, update or remove succeeds, the list
  in the store file is ascending by name in the order of the host's
  \<^verbatim>\<open>localeCompare\<close>, for every comparator that is consistent.
\<close>

theorem C5_writes_sorted_by_localeCompare:
  assumes "consistent_comparator lc"
  shows "(succeeded (saveCategoryShapes lc lib cat xs) \<longrightarrow>
            (\<exists>ys. stored (snd (saveCategoryShapes lc lib cat xs)) cat = Some ys \<and>
                  sorted_by_name lc ys)) \<and>
         (succeeded (addShapeToLibrary lc s lib) \<longrightarrow>
            (\<exists>ys. stored (snd (addShapeToLibrary lc s lib)) (category s) = Some ys \<and>
                  sorted_by_name lc ys)) \<and>
         (succeeded (updateShapeInLibrary lc i cat updates lib) \<longrightarrow>
            (\<exists>ys. stored (snd (updateShapeInLibrary lc i cat updates lib)) cat = Some ys \<and>
                  sorted_by_name lc ys)) \<and>
         (succeeded (removeShapeFromLibrary lc i cat lib) \<longrightarrow>
            (\<exists>ys. stored (snd (removeShapeFromLibrary lc i cat lib)) cat = Some ys \<and>
                  sorted_by_name lc ys))"
proof (intro conjI impI)
  assume "succeeded (saveCategoryShapes lc lib cat xs)"
  then show "\<exists>ys. stored (snd (saveCategoryShapes lc lib cat xs)) cat = Some ys \<and>
                  sorted_by_name lc ys"
    by (rule saveCategoryShapes_sorted [OF assms])
next
  assume a: "succeeded (addShapeToLibrary lc s lib)"
  show "\<exists>ys. stored (snd (addShapeToLibrary lc s lib)) (category s) = Some ys \<and>
             sorted_by_name lc ys"
    using a saveCategoryShapes_sorted [OF assms, of lib "category s"]
    by (simp add: addShapeToLibrary_as_save)
next
  assume a: "succeeded (updateShapeInLibrary lc i cat updates lib)"
  note k = updateShapeInLibrary_succeeded [OF a]
  show "\<exists>ys. stored (snd (updateShapeInLibrary lc i cat updates lib)) cat = Some ys \<and>
             sorted_by_name lc ys"
    using a saveCategoryShapes_sorted [OF assms, of lib cat]
    by (simp add: updateShapeInLibrary_found [OF k])
next
  assume a: "succeeded (removeShapeFromLibrary lc i cat lib)"
  show "\<exists>ys. stored (snd (removeShapeFromLibrary lc i cat lib)) cat = Some ys \<and>
             sorted_by_name lc ys"
    using a saveCategoryShapes_sorted [OF assms, of lib cat]
    by (simp add: removeShapeFromLibrary_succeeded [OF a])
qed

lemma empty_path: "getCategoryFilePath empty_library ''basic'' = ''/lib/shapes/basic.json''"
  by (simp add: basic_path_any empty_library_def)

lemma load_empty_library: "loadCategoryShapes empty_library c = []"
  by (simp add: loadCategoryShapes_files empty_library_def)

lemma apple_before_zebra:
  "localeCompare_ascii ''apple'' ''Zebra'' = - 1" "localeCompare_ascii ''Zebra'' ''apple'' = 1"
  by (simp_all add: localeCompare_ascii_def collation_key_def toLowerCase_char_def isUpper_def
      upper_letters_def lower_letters_def less_char_def)

text \<open>
  Claim C5 as stated fails: adding "Zebra" and then "apple" to an empty library persists
  "apple" in front of "Zebra", the order of the locale-aware comparison, while in
  case-sensitive lexical order "Zebra" is in front of "apple".
\<close>

theorem C5_counterexample:
  "stored (snd (addShapeToLibrary localeCompare_ascii apple_shape
             (snd (addShapeToLibrary localeCompare_ascii zebra_shape empty_library)))) ''basic'' =
     Some [apple_shape, zebra_shape] \<and>
   name apple_shape = ''apple'' \<and> name zebra_shape = ''Zebra'' \<and>
   \<not> sorted_lexically [apple_shape, zebra_shape]"
proof -
  have z: "category zebra_shape = ''basic''" "name zebra_shape = ''Zebra''" "id_s zebra_shape = ''z1''"
    by (simp_all add: zebra_shape_def sample_shape_def)
  have a: "category apple_shape = ''basic''" "name apple_shape = ''apple''" "id_s apple_shape = ''a1''"
    by (simp_all add: apple_shape_def sample_shape_def)
  have w: "write_error empty_library (getCategoryFilePath empty_library ''basic'') = None"
    by (simp add: empty_library_def)
  have s1: "snd (addShapeToLibrary localeCompare_ascii zebra_shape empty_library) =
      with_store empty_library ''basic'' [zebra_shape]"
    using addShapeToLibrary_ok [of empty_library zebra_shape localeCompare_ascii] w
    by (simp add: z load_empty_library array_sort_def)
  have s2: "snd (addShapeToLibrary localeCompare_ascii apple_shape
        (with_store empty_library ''basic'' [zebra_shape])) =
      with_store (with_store empty_library ''basic'' [zebra_shape]) ''basic'' [apple_shape, zebra_shape]"
    using addShapeToLibrary_ok [of "with_store empty_library ''basic'' [zebra_shape]"
        apple_shape localeCompare_ascii] w
    by (simp add: a z array_sort_def by_name_def apple_before_zebra)
  have l: "\<not> sorted_lexically [apple_shape, zebra_shape]"
    by (simp add: sorted_lexically_def a z less_eq_char_def less_char_def)
  show ?thesis
    using s1 s2 l a(2) z(2) by simp
qed

lemma updateShapeInLibrary_succeeds:
  assumes "write_error lib (getCategoryFilePath lib cat) = None"
    and "findIndex (\<lambda>s. id_s s = i) (loadCategoryShapes lib cat) \<noteq> - 1"
  shows "succeeded (updateShapeInLibrary lc i cat updates lib)"
  using assms
  by (simp add: updateShapeInLibrary_found saveCategoryShapes_succeeded)

lemma removeShapeFromLibrary_succeeds:
  assumes "write_error lib (getCategoryFilePath lib cat) = None"
    and "length (filter (\<lambda>s. id_s s \<noteq> i) (loadCategoryShapes lib cat)) \<noteq>
         length (loadCategoryShapes lib cat)"
  shows "succeeded (removeShapeFromLibrary lc i cat lib)"
  using assms
  by (simp add: removeShapeFromLibrary_def Let_def saveCategoryShapes_succeeded)

text \<open>
  The four kinds of write on a library that holds two records.
\<close>

theorem C5_writes_sorted_by_localeCompare_witness:
  "consistent_comparator localeCompare_ascii \<and>
   succeeded (saveCategoryShapes localeCompare_ascii basic_library ''basic'' [zebra_shape, apple_shape]) \<and>
   (\<exists>ys. stored (snd (saveCategoryShapes localeCompare_ascii basic_library ''basic''
                        [zebra_shape, apple_shape])) ''basic'' = Some ys \<and>
         sorted_by_name localeCompare_ascii ys) \<and>
   succeeded (addShapeToLibrary localeCompare_ascii star_shape basic_library) \<and>
   (\<exists>ys. stored (snd (addShapeToLibrary localeCompare_ascii star_shape basic_library))
           (category star_shape) = Some ys \<and>
         sorted_by_name localeCompare_ascii ys) \<and>
   succeeded (updateShapeInLibrary localeCompare_ascii ''s1'' ''basic'' rename_updates basic_library) \<and>
   (\<exists>ys. stored (snd (updateShapeInLibrary localeCompare_ascii ''s1'' ''basic'' rename_updates
                        basic_library)) ''basic'' = Some ys \<and>
         sorted_by_name localeCompare_ascii ys) \<and>
   succeeded (removeShapeFromLibrary localeCompare_ascii ''s1'' ''basic'' basic_library) \<and>
   (\<exists>ys. stored (snd (removeShapeFromLibrary localeCompare_ascii ''s1'' ''basic'' basic_library))
           ''basic'' = Some ys \<and>
         sorted_by_name localeCompare_ascii ys)"
proof -
  note c = consistent_localeCompare_ascii
  have w: "write_error basic_library (getCategoryFilePath basic_library ''basic'') = None"
    by (simp add: basic_library_def library_with_def)
  have cs: "category star_shape = ''basic''"
    by (simp add: star_shape_def sample_shape_def)
  have ids: "id_s old_star_shape = ''s1''" "id_s moon_shape = ''m1''"
    by (simp_all add: old_star_shape_def moon_shape_def sample_shape_def)
  have h1: "succeeded (saveCategoryShapes localeCompare_ascii basic_library ''basic''
      [zebra_shape, apple_shape])"
    using w by (simp add: saveCategoryShapes_succeeded)
  have h2: "succeeded (addShapeToLibrary localeCompare_ascii star_shape basic_library)"
    using w by (simp add: addShapeToLibrary_as_save saveCategoryShapes_succeeded cs)
  have h3: "succeeded (updateShapeInLibrary localeCompare_ascii ''s1'' ''basic'' rename_updates
      basic_library)"
    by (rule updateShapeInLibrary_succeeds [OF w]) (simp add: load_basic_library ids)
  have h4: "succeeded (removeShapeFromLibrary localeCompare_ascii ''s1'' ''basic'' basic_library)"
    by (rule removeShapeFromLibrary_succeeds [OF w]) (simp add: load_basic_library ids)
  from C5_writes_sorted_by_localeCompare [OF c, of basic_library "''basic''"
      "[zebra_shape, apple_shape]" star_shape "''s1''" rename_updates] c h1 h2 h3 h4
  show ?thesis by blast
qed

section \<open>Shape store: counts\<close>

lemma getShapeCounts_eq:
  "getShapeCounts lib =
     [(''basic'', length (loadCategoryShapes lib ''basic'')),
      (''arrows'', length (loadCategoryShapes lib ''arrows'')),
      (''flowchart'', length (loadCategoryShapes lib ''flowchart'')),
      (''callouts'', length (loadCategoryShapes lib ''callouts''))]"
  by (simp add: getShapeCounts_def count_categories_def)

lemma load_other_file:
  assumes "c \<noteq> d"
  shows "loadCategoryShapes (lib\<lparr>files := (files lib)(getCategoryFilePath lib c := f)\<rparr>) d =
         loadCategoryShapes lib d"
proof -
  have p: "getCategoryFilePath (lib\<lparr>files := (files lib)(getCategoryFilePath lib c := f)\<rparr>) d =
      getCategoryFilePath lib d"
    by (simp add: getCategoryFilePath_def getShapesDir_def)
  have "getCategoryFilePath lib d \<noteq> getCategoryFilePath lib c"
    using assms by (simp add: getCategoryFilePath_inj)
  then show ?thesis
    by (simp add: loadCategoryShapes_files p)
qed

text \<open>
  Claim C10.  The per-category counts have exactly the keys "basic", "arrows",
  "flowchart" and "callouts", each with the length of that category's list; the total is
  the sum of these counts; and whatever the store file of any other category holds, it
  changes neither the counts nor the total.
\<close>

theorem C10_counts_and_total:
  "map fst (getShapeCounts lib) = [''basic'', ''arrows'', ''flowchart'', ''callouts''] \<and>
   map snd (getShapeCounts lib) =
     map (\<lambda>c. length (loadCategoryShapes lib c)) [''basic'', ''arrows'', ''flowchart'', ''callouts''] \<and>
   getTotalShapeCount lib = sum_list (map snd (getShapeCounts lib)) \<and>
   (c \<notin> {''basic'', ''arrows'', ''flowchart'', ''callouts''} \<longrightarrow>
      getShapeCounts (lib\<lparr>files := (files lib)(getCategoryFilePath lib c := f)\<rparr>) =
        getShapeCounts lib \<and>
      getTotalShapeCount (lib\<lparr>files := (files lib)(getCategoryFilePath lib c := f)\<rparr>) =
        getTotalShapeCount lib)"
proof -
  have keys: "map fst (getShapeCounts lib) = [''basic'', ''arrows'', ''flowchart'', ''callouts'']"
    by (simp add: getShapeCounts_eq)
  have vals: "map snd (getShapeCounts lib) =
      map (\<lambda>c. length (loadCategoryShapes lib c)) [''basic'', ''arrows'', ''flowchart'', ''callouts'']"
    by (simp add: getShapeCounts_eq)
  have total: "getTotalShapeCount lib = sum_list (map snd (getShapeCounts lib))"
    by (simp add: getTotalShapeCount_def getShapeCounts_eq)
  have other: "getShapeCounts (lib\<lparr>files := (files lib)(getCategoryFilePath lib c := f)\<rparr>) =
        getShapeCounts lib"
    if "c \<notin> {''basic'', ''arrows'', ''flowchart'', ''callouts''}"
  proof -
    from that have "c \<noteq> ''basic''" "c \<noteq> ''arrows''" "c \<noteq> ''flowchart''" "c \<noteq> ''callouts''"
      by auto
    then show ?thesis
      by (simp add: getShapeCounts_eq load_other_file)
  qed
  have other_total:
    "getTotalShapeCount (lib\<lparr>files := (files lib)(getCategoryFilePath lib c := f)\<rparr>) =
        getTotalShapeCount lib"
    if "c \<notin> {''basic'', ''arrows'', ''flowchart'', ''callouts''}"
    using other [OF that] by (simp add: getTotalShapeCount_def)
  from keys vals total other other_total show ?thesis by blast
qed

text \<open>
  A library with two records under "basic" and one under "proposals": the counts do not
  see the latter.
\<close>

theorem C10_counts_and_total_witness:
  "''proposals'' \<notin> {''basic'', ''arrows'', ''flowchart'', ''callouts''} \<and>
   loadCategoryShapes (with_store basic_library ''proposals'' [proposal_shape]) ''proposals'' =
     [proposal_shape] \<and>
   getShapeCounts basic_library = [(''basic'', 2), (''arrows'', 0), (''flowchart'', 0), (''callouts'', 0)] \<and>
   getShapeCounts (with_store basic_library ''proposals'' [proposal_shape]) =
     getShapeCounts basic_library \<and>
   getTotalShapeCount (with_store basic_library ''proposals'' [proposal_shape]) =
     getTotalShapeCount basic_library \<and>
   getTotalShapeCount basic_library = 2"
proof -
  have h: "''proposals'' \<notin> {''basic'', ''arrows'', ''flowchart'', ''callouts''}"
    by simp
  have l: "loadCategoryShapes (with_store basic_library ''proposals'' [proposal_shape]) ''proposals'' =
     [proposal_shape]"
    by simp
  have e: "loadCategoryShapes basic_library ''arrows'' = []"
    "loadCategoryShapes basic_library ''flowchart'' = []"
    "loadCategoryShapes basic_library ''callouts'' = []"
    by (simp_all add: loadCategoryShapes_files getCategoryFilePath_def getShapesDir_def join_def
        basic_library_def library_with_def)
  have cnt: "getShapeCounts basic_library =
      [(''basic'', 2), (''arrows'', 0), (''flowchart'', 0), (''callouts'', 0)]"
    by (simp add: getShapeCounts_eq load_basic_library e)
  note t = C10_counts_and_total [of basic_library "''proposals''"
      "Some (Readable (Shapes_JSON [proposal_shape]))"]
  have tot: "getTotalShapeCount basic_library = 2"
    using t cnt by simp
  from t h l cnt tot show ?thesis
    by (simp add: with_store_def)
qed

section \<open>Shape cache: lookup\<close>

lemma getCachedShapes_hit_iff:
  "fst (getCachedShapes mtime cache cat filePath) = Some xs \<longleftrightarrow>
     (\<exists>e. cache cat = Some e \<and> mtime filePath = Some (lastModified e) \<and> ce_shapes e = xs)"
  by (auto simp: getCachedShapes_def split: option.splits)

lemma getCachedShapes_hit_keeps:
  "fst (getCachedShapes mtime cache cat filePath) \<noteq> None \<Longrightarrow>
     snd (getCachedShapes mtime cache cat filePath) = cache"
  by (auto simp: getCachedShapes_def split: option.splits if_splits)

lemma getCachedShapes_miss_evicts:
  "fst (getCachedShapes mtime cache cat filePath) = None \<Longrightarrow>
     snd (getCachedShapes mtime cache cat filePath) = cache(cat := None)"
  by (auto simp: getCachedShapes_def split: option.splits if_splits)

text \<open>
  Claim C6.  The cache lookup returns a record list exactly when the category has an
  entry and the current modification time of the store file is the one recorded in the
  entry, and then it returns the entry's list and leaves the cache alone; when the
  category has an entry and the modification time differs or cannot be read, the entry
  is evicted and the lookup misses; without an entry it misses.  The recorded time is
  the one read by \<open>setCachedShapes\<close> when the entry was put.
\<close>

theorem C6_cache_get_checks_modification_time:
  "(fst (getCachedShapes mtime cache cat filePath) = Some xs \<longleftrightarrow>
      (\<exists>e. cache cat = Some e \<and> mtime filePath = Some (lastModified e) \<and> ce_shapes e = xs)) \<and>
   (fst (getCachedShapes mtime cache cat filePath) \<noteq> None \<longrightarrow>
      snd (getCachedShapes mtime cache cat filePath) = cache) \<and>
   (\<forall>e. cache cat = Some e \<longrightarrow> mtime filePath \<noteq> Some (lastModified e) \<longrightarrow>
      getCachedShapes mtime cache cat filePath = (None, cache(cat := None))) \<and>
   (cache cat = None \<longrightarrow> getCachedShapes mtime cache cat filePath = (None, cache)) \<and>
   (\<forall>m. mtime0 filePath = Some m \<longrightarrow>
      getCachedShapes mtime (setCachedShapes mtime0 cache cat filePath xs) cat filePath =
        (if mtime filePath = Some m
         then (Some xs, setCachedShapes mtime0 cache cat filePath xs)
         else (None, (setCachedShapes mtime0 cache cat filePath xs)(cat := None))))"
proof (intro conjI allI impI)
  show "fst (getCachedShapes mtime cache cat filePath) = Some xs \<longleftrightarrow>
      (\<exists>e. cache cat = Some e \<and> mtime filePath = Some (lastModified e) \<and> ce_shapes e = xs)"
    by (rule getCachedShapes_hit_iff)
next
  assume "fst (getCachedShapes mtime cache cat filePath) \<noteq> None"
  then show "snd (getCachedShapes mtime cache cat filePath) = cache"
    by (rule getCachedShapes_hit_keeps)
next
  fix e
  assume "cache cat = Some e" and "mtime filePath \<noteq> Some (lastModified e)"
  then show "getCachedShapes mtime cache cat filePath = (None, cache(cat := None))"
    by (auto simp: getCachedShapes_def split: option.splits)
next
  assume "cache cat = None"
  then show "getCachedShapes mtime cache cat filePath = (None, cache)"
    by (simp add: getCachedShapes_def)
next
  fix m
  assume "mtime0 filePath = Some m"
  then show "getCachedShapes mtime (setCachedShapes mtime0 cache cat filePath xs) cat filePath =
        (if mtime filePath = Some m
         then (Some xs, setCachedShapes mtime0 cache cat filePath xs)
         else (None, (setCachedShapes mtime0 cache cat filePath xs)(cat := None)))"
    by (auto simp: getCachedShapes_def setCachedShapes_def split: option.splits)
qed

text \<open>
  An entry put at one modification time: found again at that time, evicted at a later
  time, evicted when the file cannot be stat'd; and a miss on the empty cache.
\<close>

theorem C6_cache_get_checks_modification_time_witness:
  "mtime_at_put ''/lib/shapes/basic.json'' = Some 1700000000000 \<and>
   mtime_later ''/lib/shapes/basic.json'' \<noteq> Some 1700000000000 \<and>
   Map.empty ''basic'' = (None :: ShapeCacheEntry option) \<and>
   getCachedShapes mtime_at_put Map.empty ''basic'' ''/lib/shapes/basic.json'' = (None, Map.empty) \<and>
   getCachedShapes mtime_at_put
     (setCachedShapes mtime_at_put Map.empty ''basic'' ''/lib/shapes/basic.json'' [moon_shape])
     ''basic'' ''/lib/shapes/basic.json'' =
     (Some [moon_shape],
      setCachedShapes mtime_at_put Map.empty ''basic'' ''/lib/shapes/basic.json'' [moon_shape]) \<and>
   getCachedShapes mtime_later
     (setCachedShapes mtime_at_put Map.empty ''basic'' ''/lib/shapes/basic.json'' [moon_shape])
     ''basic'' ''/lib/shapes/basic.json'' =
     (None, (setCachedShapes mtime_at_put Map.empty ''basic'' ''/lib/shapes/basic.json''
               [moon_shape])(''basic'' := None)) \<and>
   getCachedShapes Map.empty
     (setCachedShapes mtime_at_put Map.empty ''basic'' ''/lib/shapes/basic.json'' [moon_shape])
     ''basic'' ''/lib/shapes/basic.json'' =
     (None, (setCachedShapes mtime_at_put Map.empty ''basic'' ''/lib/shapes/basic.json''
               [moon_shape])(''basic'' := None))"
proof -
  have p: "mtime_at_put ''/lib/shapes/basic.json'' = Some 1700000000000"
    by (simp add: mtime_at_put_def)
  have l: "mtime_later ''/lib/shapes/basic.json'' \<noteq> Some 1700000000000"
    by (simp add: mtime_later_def)
  have n: "(Map.empty :: string \<rightharpoonup> int) ''/lib/shapes/basic.json'' \<noteq> Some 1700000000000"
    by simp
  have e: "Map.empty ''basic'' = (None :: ShapeCacheEntry option)"
    by simp
  note t1 = C6_cache_get_checks_modification_time [of mtime_at_put Map.empty "''basic''"
      "''/lib/shapes/basic.json''" "[moon_shape]" mtime_at_put]
  note t2 = C6_cache_get_checks_modification_time [of mtime_later Map.empty "''basic''"
      "''/lib/shapes/basic.json''" "[moon_shape]" mtime_at_put]
  note t3 = C6_cache_get_checks_modification_time [of Map.empty Map.empty "''basic''"
      "''/lib/shapes/basic.json''" "[moon_shape]" mtime_at_put]
  have g0: "getCachedShapes mtime_at_put Map.empty ''basic'' ''/lib/shapes/basic.json'' =
      (None, Map.empty)"
    using t1 e by blast
  have g1: "getCachedShapes mtime_at_put
     (setCachedShapes mtime_at_put Map.empty ''basic'' ''/lib/shapes/basic.json'' [moon_shape])
     ''basic'' ''/lib/shapes/basic.json'' =
     (Some [moon_shape],
      setCachedShapes mtime_at_put Map.empty ''basic'' ''/lib/shapes/basic.json'' [moon_shape])"
    using t1 p by simp
  have g2: "getCachedShapes mtime_later
     (setCachedShapes mtime_at_put Map.empty ''basic'' ''/lib/shapes/basic.json'' [moon_shape])
     ''basic'' ''/lib/shapes/basic.json'' =
     (None, (setCachedShapes mtime_at_put Map.empty ''basic'' ''/lib/shapes/basic.json''
               [moon_shape])(''basic'' := None))"
    using t2 p l by simp
  have g3: "getCachedShapes Map.empty
     (setCachedShapes mtime_at_put Map.empty ''basic'' ''/lib/shapes/basic.json'' [moon_shape])
     ''basic'' ''/lib/shapes/basic.json'' =
     (None, (setCachedShapes mtime_at_put Map.empty ''basic'' ''/lib/shapes/basic.json''
               [moon_shape])(''basic'' := None))"
    using t3 p n by simp
  from p l e g0 g1 g2 g3 show ?thesis by blast
qed

section \<open>Category of the preview path\<close>

lemma leading_segment_append:
  assumes "CHR ''/'' \<notin> set c"
  shows "leading_segment (c @ CHR ''/'' # rest) = c"
  using assms unfolding leading_segment_def by (induction c) auto

lemma getCategoryFromType_cases:
  "getCategoryFromType t \<in> {''flowchart'', ''arrows'', ''callouts'', ''basic''}"
  unfolding getCategoryFromType_def by (simp split: if_splits)

lemma mapToShapeInfo_category_cases:
  "category (mapToShapeInfo now e cn) \<in> {''flowchart'', ''arrows'', ''callouts'', ''basic''}"
proof (cases "truthy_flag (isGroup e) \<or> isPicture e = Some True")
  case True
  then show ?thesis by (simp add: mapToShapeInfo_def Let_def)
next
  case False
  then have "category (mapToShapeInfo now e cn) = getCategoryFromType (chooseType e)"
    by (simp add: mapToShapeInfo_def Let_def)
  then show ?thesis using getCategoryFromType_cases [of "chooseType e"] by simp
qed


lemma mapToShapeInfo_preview:
  "preview (mapToShapeInfo now e cn) = category (mapToShapeInfo now e cn) @ ''/placeholder.png''"
  by (simp add: mapToShapeInfo_def Let_def)

lemma mapToShapeInfo_preview_in_category: "preview_in_category (mapToShapeInfo now e cn)"
proof -
  have "CHR ''/'' \<notin> set (category (mapToShapeInfo now e cn))"
    using mapToShapeInfo_category_cases [of now e cn] by auto
  from leading_segment_append [OF this, of "''placeholder.png''"]
  show ?thesis
    by (simp add: preview_in_category_def mapToShapeInfo_preview)
qed

lemma saveCategoryShapes_set:
  "set (loadCategoryShapes (snd (saveCategoryShapes lc lib cat xs)) cat) \<subseteq>
     set xs \<union> set (loadCategoryShapes lib cat)"
proof (cases "write_error lib (getCategoryFilePath lib cat)")
  case None
  then show ?thesis
    by (simp add: saveCategoryShapes_ok [OF None] set_array_sort)
next
  case (Some msg)
  from saveCategoryShapes_fails [OF Some, of lc xs] obtain m where
    "saveCategoryShapes lc lib cat xs = (Inl (Error m), lib)" by blast
  then show ?thesis by simp
qed

lemma addShapeToLibrary_set:
  "set (loadCategoryShapes (snd (addShapeToLibrary lc s lib)) (category s)) \<subseteq>
     insert s (set (loadCategoryShapes lib (category s)))"
proof -
  let ?xs = "loadCategoryShapes lib (category s)"
  let ?k = "findIndex (\<lambda>x. id_s x = id_s s) ?xs"
  let ?ys = "if ?k \<noteq> - 1 then ?xs[nat ?k := s] else ?xs @ [s]"
  have sub: "set ?ys \<subseteq> insert s (set ?xs)"
    using set_update_subset_insert [of ?xs "nat ?k" s] by auto
  have "snd (addShapeToLibrary lc s lib) = snd (saveCategoryShapes lc lib (category s) ?ys)"
    using addShapeToLibrary_as_save [of lc s lib] by blast
  with saveCategoryShapes_set [of lc lib "category s" ?ys] sub show ?thesis
    by auto
qed


lemma updateShapeInLibrary_preserves_preview_in_category:
  assumes inv: "\<forall>x \<in> set (loadCategoryShapes lib cat). preview_in_category x \<and> category x = cat"
    and upd: "\<forall>p. p_preview updates = Some p \<longrightarrow> leading_segment p = cat"
  shows "\<forall>x \<in> set (loadCategoryShapes (snd (updateShapeInLibrary lc i cat updates lib)) cat).
           preview_in_category x"
proof (cases "findIndex (\<lambda>s. id_s s = i) (loadCategoryShapes lib cat) = - 1")
  case True
  then have "snd (updateShapeInLibrary lc i cat updates lib) = lib"
    by (simp add: updateShapeInLibrary_def Let_def)
  with inv show ?thesis by simp
next
  case False
  let ?xs = "loadCategoryShapes lib cat"
  let ?k = "nat (findIndex (\<lambda>s. id_s s = i) ?xs)"
  let ?new = "spread_updates (?xs ! ?k) updates i cat"
  from findIndex_split [OF False] obtain ys x zs where
    h: "?xs = ys @ x # zs" "?k = length ys" by blast
  then have at: "?xs ! ?k = x" and mem: "x \<in> set ?xs" by simp_all
  have old: "leading_segment (preview x) = cat"
    using inv mem by (auto simp: preview_in_category_def)
  have new: "preview_in_category ?new"
    using old upd by (simp add: at preview_in_category_def spread_updates_def split: option.splits)
  have sub: "set (?xs[?k := ?new]) \<subseteq> insert ?new (set ?xs)"
    by (rule set_update_subset_insert)
  have "set (loadCategoryShapes (snd (updateShapeInLibrary lc i cat updates lib)) cat) \<subseteq>
      set (?xs[?k := ?new]) \<union> set ?xs"
    using saveCategoryShapes_set [of lc lib cat "?xs[?k := ?new]"]
    by (simp add: updateShapeInLibrary_found [OF False])
  with sub have "set (loadCategoryShapes (snd (updateShapeInLibrary lc i cat updates lib)) cat) \<subseteq>
      insert ?new (set ?xs)"
    by blast
  with new inv show ?thesis by blast
qed

lemma updateShapeInLibrary_existing:
  assumes "write_error lib (getCategoryFilePath lib cat) = None"
    and "filter (\<lambda>s. id_s s = i) (loadCategoryShapes lib cat) = [old]"
  shows "fst (updateShapeInLibrary lc i cat updates lib) = Inr () \<and>
         filter (\<lambda>s. id_s s = i)
           (loadCategoryShapes (snd (updateShapeInLibrary lc i cat updates lib)) cat) =
           [spread_updates old updates i cat]"
proof -
  let ?P = "\<lambda>s. id_s s = i"
  let ?xs = "loadCategoryShapes lib cat"
  let ?new = "spread_updates old updates i cat"
  from filter_single_split [OF assms(2)] obtain ys zs where
    h: "?xs = ys @ old # zs" "filter ?P ys = []" "filter ?P zs = []"
       "findIndex ?P ?xs \<noteq> - 1" "nat (findIndex ?P ?xs) = length ys"
    by blast
  have at: "?xs ! nat (findIndex ?P ?xs) = old"
    using h(1,5) by simp
  have upd: "?xs[nat (findIndex ?P ?xs) := ?new] = ys @ ?new # zs"
    using h(1,5) by simp
  have u: "updateShapeInLibrary lc i cat updates lib =
      (Inr (), with_store lib cat (array_sort (by_name lc) (ys @ ?new # zs)))"
    using updateShapeInLibrary_found [OF h(4), of lc updates] at upd
      saveCategoryShapes_ok [OF assms(1), of lc]
    by simp
  have "id_s ?new = i" by (simp add: spread_updates_def)
  then have "filter ?P (ys @ ?new # zs) = [?new]"
    using h(2,3) by simp
  then have "filter ?P (array_sort (by_name lc) (ys @ ?new # zs)) = [?new]"
    by (rule filter_array_sort_single)
  with u show ?thesis by simp
qed

lemma generatePreview_updates_preview:
  assumes "write_error lib (getCategoryFilePath lib (category shape)) = None"
    and "filter (\<lambda>s. id_s s = id_s shape) (loadCategoryShapes lib (category shape)) = [old]"
  shows "fst (generatePreview lc True (Inr ()) shape lib) =
           Inr (Some (join (join (join (libraryRoot lib) ''assets'') (category shape))
                        (id_s shape @ ''.png''))) \<and>
         filter (\<lambda>s. id_s s = id_s shape)
           (loadCategoryShapes (snd (generatePreview lc True (Inr ()) shape lib)) (category shape)) =
           [old\<lparr> id_s := id_s shape, category := category shape,
                 preview := category shape @ ''/'' @ id_s shape @ ''.png'' \<rparr>]"
proof -
  let ?u = "no_updates\<lparr>p_preview := Some (category shape @ ''/'' @ id_s shape @ ''.png'')\<rparr>"
  have sp: "spread_updates old ?u (id_s shape) (category shape) =
      old\<lparr> id_s := id_s shape, category := category shape,
           preview := category shape @ ''/'' @ id_s shape @ ''.png'' \<rparr>"
    by (simp add: spread_updates_def no_updates_def)
  from updateShapeInLibrary_existing [OF assms, of lc ?u] sp
  show ?thesis
    by (simp add: generatePreview_def Let_def case_prod_beta)
qed


text \<open>
  Claim C1, amended.  Normalisation emits the preview path "<category>/placeholder.png",
  whose leading segment is the record's category.  Preview generation, when it reaches
  the store update of a record that exists, persists "<category>/<id>.png" on a record of
  that category.  Add and update persist the preview path they are given without looking
  at it: after an add every record of the store leads with its category when the stored
  ones and the added one do, and after an update when the stored ones do and the partial
  carries no preview path or one that leads with the category.
\<close>

theorem C1_preview_category_where_established:
  "(preview (mapToShapeInfo now e customName) =
      category (mapToShapeInfo now e customName) @ ''/placeholder.png'' \<and>
    preview_in_category (mapToShapeInfo now e customName)) \<and>
   (write_error lib (getCategoryFilePath lib (category shape)) = None \<longrightarrow>
    filter (\<lambda>s. id_s s = id_s shape) (loadCategoryShapes lib (category shape)) = [old] \<longrightarrow>
    CHR ''/'' \<notin> set (category shape) \<longrightarrow>
      filter (\<lambda>s. id_s s = id_s shape)
        (loadCategoryShapes (snd (generatePreview lc True (Inr ()) shape lib)) (category shape)) =
        [old\<lparr> id_s := id_s shape, category := category shape,
              preview := category shape @ ''/'' @ id_s shape @ ''.png'' \<rparr>] \<and>
      preview_in_category
        (old\<lparr> id_s := id_s shape, category := category shape,
              preview := category shape @ ''/'' @ id_s shape @ ''.png'' \<rparr>)) \<and>
   (list_all preview_in_category (loadCategoryShapes lib (category s)) \<longrightarrow>
    preview_in_category s \<longrightarrow>
      list_all preview_in_category
        (loadCategoryShapes (snd (addShapeToLibrary lc s lib)) (category s))) \<and>
   (list_all (\<lambda>x. preview_in_category x \<and> category x = cat) (loadCategoryShapes lib cat) \<longrightarrow>
    (case p_preview updates of None \<Rightarrow> True | Some p \<Rightarrow> leading_segment p = cat) \<longrightarrow>
      list_all preview_in_category
        (loadCategoryShapes (snd (updateShapeInLibrary lc i cat updates lib)) cat))"
proof (intro conjI impI)
  show "preview (mapToShapeInfo now e customName) =
      category (mapToShapeInfo now e customName) @ ''/placeholder.png''"
    by (rule mapToShapeInfo_preview)
  show "preview_in_category (mapToShapeInfo now e customName)"
    by (rule mapToShapeInfo_preview_in_category)
next
  assume w: "write_error lib (getCategoryFilePath lib (category shape)) = None"
    and f: "filter (\<lambda>s. id_s s = id_s shape) (loadCategoryShapes lib (category shape)) = [old]"
  from generatePreview_updates_preview [OF w f, of lc]
  show "filter (\<lambda>s. id_s s = id_s shape)
        (loadCategoryShapes (snd (generatePreview lc True (Inr ()) shape lib)) (category shape)) =
        [old\<lparr> id_s := id_s shape, category := category shape,
              preview := category shape @ ''/'' @ id_s shape @ ''.png'' \<rparr>]"
    by blast
next
  assume "CHR ''/'' \<notin> set (category shape)"
  from leading_segment_append [OF this, of "id_s shape @ ''.png''"]
  show "preview_in_category
        (old\<lparr> id_s := id_s shape, category := category shape,
              preview := category shape @ ''/'' @ id_s shape @ ''.png'' \<rparr>)"
    by (simp add: preview_in_category_def)
next
  assume "list_all preview_in_category (loadCategoryShapes lib (category s))"
    and "preview_in_category s"
  with addShapeToLibrary_set [of lc s lib]
  show "list_all preview_in_category
        (loadCategoryShapes (snd (addShapeToLibrary lc s lib)) (category s))"
    by (auto simp: list_all_iff)
next
  assume inv: "list_all (\<lambda>x. preview_in_category x \<and> category x = cat) (loadCategoryShapes lib cat)"
    and upd: "case p_preview updates of None \<Rightarrow> True | Some p \<Rightarrow> leading_segment p = cat"
  have "\<forall>x \<in> set (loadCategoryShapes (snd (updateShapeInLibrary lc i cat updates lib)) cat).
           preview_in_category x"
    by (rule updateShapeInLibrary_preserves_preview_in_category)
       (use inv upd in \<open>auto simp: list_all_iff split: option.splits\<close>)
  then show "list_all preview_in_category
        (loadCategoryShapes (snd (updateShapeInLibrary lc i cat updates lib)) cat)"
    by (simp add: list_all_iff)
qed

text \<open>
  Claim C1 as stated fails: add persists a record filed under "arrows" whose preview path
  leads with "basic" exactly as it is given.
\<close>

theorem C1_counterexample:
  "succeeded (addShapeToLibrary localeCompare_ascii misfiled_shape empty_library) \<and>
   stored (snd (addShapeToLibrary localeCompare_ascii misfiled_shape empty_library)) ''arrows'' =
     Some [misfiled_shape] \<and>
   category misfiled_shape = ''arrows'' \<and>
   leading_segment (preview misfiled_shape) = ''basic'' \<and>
   \<not> preview_in_category misfiled_shape"
proof -
  have c: "category misfiled_shape = ''arrows''"
    by (simp add: misfiled_shape_def sample_shape_def)
  have l: "leading_segment (preview misfiled_shape) = ''basic''"
    by (simp add: misfiled_shape_def sample_shape_def leading_segment_def)
  have w: "write_error empty_library (getCategoryFilePath empty_library (category misfiled_shape)) = None"
    by (simp add: empty_library_def)
  have a: "addShapeToLibrary localeCompare_ascii misfiled_shape empty_library =
      (Inr (getCategoryFilePath empty_library ''arrows''),
       with_store empty_library ''arrows'' [misfiled_shape])"
    using addShapeToLibrary_ok [OF w, of localeCompare_ascii]
    by (simp add: c load_empty_library array_sort_def)
  have n: "\<not> preview_in_category misfiled_shape"
    by (simp add: preview_in_category_def c l)
  from a c l n show ?thesis
    by (simp add: succeeded_def)
qed


text \<open>
  The four operations on a library whose records satisfy the invariant.
\<close>

theorem C1_preview_category_where_established_witness:
  "preview_in_category (mapToShapeInfo 1234 arrow1_raw None) \<and>
   write_error basic_library (getCategoryFilePath basic_library (category star_shape)) = None \<and>
   filter (\<lambda>s. id_s s = id_s star_shape) (loadCategoryShapes basic_library (category star_shape)) =
     [old_star_shape] \<and>
   CHR ''/'' \<notin> set (category star_shape) \<and>
   filter (\<lambda>s. id_s s = id_s star_shape)
     (loadCategoryShapes
        (snd (generatePreview localeCompare_ascii True (Inr ()) star_shape basic_library))
        (category star_shape)) =
     [old_star_shape\<lparr> id_s := id_s star_shape, category := category star_shape,
                      preview := category star_shape @ ''/'' @ id_s star_shape @ ''.png'' \<rparr>] \<and>
   preview_in_category
     (old_star_shape\<lparr> id_s := id_s star_shape, category := category star_shape,
                      preview := category star_shape @ ''/'' @ id_s star_shape @ ''.png'' \<rparr>) \<and>
   category star_shape @ ''/'' @ id_s star_shape @ ''.png'' = ''basic/s1.png'' \<and>
   list_all preview_in_category (loadCategoryShapes basic_library (category star_shape)) \<and>
   preview_in_category star_shape \<and>
   list_all preview_in_category
     (loadCategoryShapes (snd (addShapeToLibrary localeCompare_ascii star_shape basic_library))
        (category star_shape)) \<and>
   list_all (\<lambda>x. preview_in_category x \<and> category x = ''basic'')
     (loadCategoryShapes basic_library ''basic'') \<and>
   p_preview preview_updates = Some ''basic/star.png'' \<and>
   leading_segment ''basic/star.png'' = ''basic'' \<and>
   list_all preview_in_category
     (loadCategoryShapes
        (snd (updateShapeInLibrary localeCompare_ascii ''s1'' ''basic'' preview_updates basic_library))
        ''basic'')"
proof -
  have st: "category star_shape = ''basic''" "id_s star_shape = ''s1''"
    "preview star_shape = ''basic/s1.png''"
    by (simp_all add: star_shape_def sample_shape_def)
  have os: "category old_star_shape = ''basic''" "id_s old_star_shape = ''s1''"
    "preview old_star_shape = ''basic/placeholder.png''"
    by (simp_all add: old_star_shape_def sample_shape_def)
  have mo: "category moon_shape = ''basic''" "id_s moon_shape = ''m1''"
    "preview moon_shape = ''basic/m1.png''"
    by (simp_all add: moon_shape_def sample_shape_def)
  have pic: "preview_in_category star_shape" "preview_in_category old_star_shape"
    "preview_in_category moon_shape"
    by (simp_all add: preview_in_category_def leading_segment_def st os mo)
  have h1: "write_error basic_library (getCategoryFilePath basic_library (category star_shape)) = None"
    by (simp add: basic_library_def library_with_def)
  have h2: "filter (\<lambda>s. id_s s = id_s star_shape)
      (loadCategoryShapes basic_library (category star_shape)) = [old_star_shape]"
    by (simp add: st load_basic_library os mo)
  have h3: "CHR ''/'' \<notin> set (category star_shape)"
    by (simp add: st)
  have h4: "list_all preview_in_category (loadCategoryShapes basic_library (category star_shape))"
    by (simp add: st load_basic_library pic)
  have h5: "list_all (\<lambda>x. preview_in_category x \<and> category x = ''basic'')
      (loadCategoryShapes basic_library ''basic'')"
    by (simp add: load_basic_library pic os mo)
  have h6: "p_preview preview_updates = Some ''basic/star.png''"
    by (simp add: preview_updates_def no_updates_def)
  have h7: "leading_segment ''basic/star.png'' = ''basic''"
    by (simp add: leading_segment_def)
  have h8: "case p_preview preview_updates of None \<Rightarrow> True
            | Some p \<Rightarrow> leading_segment p = ''basic''"
    by (simp add: h6 h7)
  have rel: "category star_shape @ ''/'' @ id_s star_shape @ ''.png'' = ''basic/s1.png''"
    by (simp add: st)
  note t = C1_preview_category_where_established [of 1234 arrow1_raw None basic_library
      star_shape old_star_shape localeCompare_ascii star_shape "''basic''" preview_updates "''s1''"]
  have c1: "preview_in_category (mapToShapeInfo 1234 arrow1_raw None)"
    using t by blast
  have c2: "filter (\<lambda>s. id_s s = id_s star_shape)
     (loadCategoryShapes
        (snd (generatePreview localeCompare_ascii True (Inr ()) star_shape basic_library))
        (category star_shape)) =
     [old_star_shape\<lparr> id_s := id_s star_shape, category := category star_shape,
                      preview := category star_shape @ ''/'' @ id_s star_shape @ ''.png'' \<rparr>] \<and>
   preview_in_category
     (old_star_shape\<lparr> id_s := id_s star_shape, category := category star_shape,
                      preview := category star_shape @ ''/'' @ id_s star_shape @ ''.png'' \<rparr>)"
    using t h1 h2 h3 by blast
  have c3: "list_all preview_in_category
     (loadCategoryShapes (snd (addShapeToLibrary localeCompare_ascii star_shape basic_library))
        (category star_shape))"
    using t h4 pic(1) by blast
  have c4: "list_all preview_in_category
     (loadCategoryShapes
        (snd (updateShapeInLibrary localeCompare_ascii ''s1'' ''basic'' preview_updates basic_library))
        ''basic'')"
    using t h5 h8 by blast
  from c1 h1 h2 h3 c2 rel h4 pic(1) c3 h5 h6 h7 c4 show ?thesis
    by blast
qed

section \<open>The store invariants are kept by the operations\<close>

lemma distinct_ids_array_sort:
  "distinct (map id_s (array_sort cmp xs)) \<longleftrightarrow> distinct (map id_s xs)"
proof -
  have "mset (map id_s (array_sort cmp xs)) = mset (map id_s xs)"
    by (simp add: mset_array_sort)
  then show ?thesis by (rule mset_eq_imp_distinct_iff)
qed

lemma saveCategoryShapes_load_other:
  assumes "c \<noteq> cat"
  shows "loadCategoryShapes (snd (saveCategoryShapes lc lib cat xs)) c = loadCategoryShapes lib c"
  using saveCategoryShapes_cases [of lc lib cat xs] assms
  by (auto simp: load_with_store_other)

lemma saveCategoryShapes_load_same:
  "loadCategoryShapes (snd (saveCategoryShapes lc lib cat xs)) cat = array_sort (by_name lc) xs \<or>
   snd (saveCategoryShapes lc lib cat xs) = lib"
  using saveCategoryShapes_cases [of lc lib cat xs] by auto

lemma saveCategoryShapes_wellformed:
  assumes "store_wellformed lib c"
    and "c = cat \<Longrightarrow> distinct (map id_s xs) \<and> list_all (\<lambda>x. category x = cat) xs"
  shows "store_wellformed (snd (saveCategoryShapes lc lib cat xs)) c"
proof (cases "c = cat")
  case False
  with assms(1) show ?thesis
    by (simp add: store_wellformed_def saveCategoryShapes_load_other)
next
  case True
  from saveCategoryShapes_load_same [of lc lib cat xs] show ?thesis
  proof
    assume l: "loadCategoryShapes (snd (saveCategoryShapes lc lib cat xs)) cat =
        array_sort (by_name lc) xs"
    show ?thesis
      using assms(2) True
      by (simp add: store_wellformed_def l distinct_ids_array_sort list_all_iff set_array_sort)
  next
    assume "snd (saveCategoryShapes lc lib cat xs) = lib"
    with assms(1) show ?thesis by simp
  qed
qed

lemma upsert_wellformed:
  assumes "distinct (map id_s xs)" and "list_all (\<lambda>x. category x = category s) xs"
  shows "distinct (map id_s (if findIndex (\<lambda>x. id_s x = id_s s) xs \<noteq> - 1
                             then xs[nat (findIndex (\<lambda>x. id_s x = id_s s) xs) := s]
                             else xs @ [s])) \<and>
         list_all (\<lambda>x. category x = category s)
           (if findIndex (\<lambda>x. id_s x = id_s s) xs \<noteq> - 1
            then xs[nat (findIndex (\<lambda>x. id_s x = id_s s) xs) := s]
            else xs @ [s])"
proof (cases "findIndex (\<lambda>x. id_s x = id_s s) xs = - 1")
  case True
  then have "id_s s \<notin> set (map id_s xs)"
    by (auto simp: findIndex_none)
  with True assms show ?thesis by simp
next
  case False
  from findIndex_split [OF False] obtain ys x zs where
    h: "xs = ys @ x # zs" "id_s x = id_s s"
       "nat (findIndex (\<lambda>x. id_s x = id_s s) xs) = length ys"
    by blast
  have "xs[nat (findIndex (\<lambda>x. id_s x = id_s s) xs) := s] = ys @ s # zs"
    using h(1,3) by simp
  with False assms h(1,2) show ?thesis by simp
qed

lemma addShapeToLibrary_wellformed:
  assumes "store_wellformed lib c"
  shows "store_wellformed (snd (addShapeToLibrary lc s lib)) c"
proof -
  let ?xs = "loadCategoryShapes lib (category s)"
  let ?ys = "if findIndex (\<lambda>x. id_s x = id_s s) ?xs \<noteq> - 1
             then ?xs[nat (findIndex (\<lambda>x. id_s x = id_s s) ?xs) := s] else ?xs @ [s]"
  have eq: "snd (addShapeToLibrary lc s lib) = snd (saveCategoryShapes lc lib (category s) ?ys)"
    using addShapeToLibrary_as_save [of lc s lib] by blast
  show ?thesis
    unfolding eq
  proof (rule saveCategoryShapes_wellformed [OF assms])
    assume "c = category s"
    with assms have "distinct (map id_s ?xs)" "list_all (\<lambda>x. category x = category s) ?xs"
      by (simp_all add: store_wellformed_def)
    then show "distinct (map id_s ?ys) \<and> list_all (\<lambda>x. category x = category s) ?ys"
      by (rule upsert_wellformed)
  qed
qed

lemma updateShapeInLibrary_wellformed:
  assumes "store_wellformed lib c"
  shows "store_wellformed (snd (updateShapeInLibrary lc i cat updates lib)) c"
proof (cases "findIndex (\<lambda>s. id_s s = i) (loadCategoryShapes lib cat) = - 1")
  case True
  then have "snd (updateShapeInLibrary lc i cat updates lib) = lib"
    by (simp add: updateShapeInLibrary_def Let_def)
  with assms show ?thesis by simp
next
  case False
  let ?xs = "loadCategoryShapes lib cat"
  let ?k = "nat (findIndex (\<lambda>s. id_s s = i) ?xs)"
  from findIndex_split [OF False] obtain ys x zs where
    h: "?xs = ys @ x # zs" "id_s x = i" "?k = length ys"
    by blast
  have at: "?xs ! ?k = x" using h(1,3) by simp
  have upd: "?xs[?k := spread_updates x updates i cat] = ys @ spread_updates x updates i cat # zs"
    using h(1,3) by simp
  show ?thesis
    unfolding updateShapeInLibrary_found [OF False] at upd
  proof (rule saveCategoryShapes_wellformed [OF assms])
    assume "c = cat"
    with assms have "distinct (map id_s ?xs)" "list_all (\<lambda>x. category x = cat) ?xs"
      by (simp_all add: store_wellformed_def)
    then show "distinct (map id_s (ys @ spread_updates x updates i cat # zs)) \<and>
        list_all (\<lambda>x. category x = cat) (ys @ spread_updates x updates i cat # zs)"
      using h(1,2) by (simp add: spread_updates_def)
  qed
qed

lemma removeShapeFromLibrary_wellformed:
  assumes "store_wellformed lib c"
  shows "store_wellformed (snd (removeShapeFromLibrary lc i cat lib)) c"
proof (cases "length (filter (\<lambda>s. id_s s \<noteq> i) (loadCategoryShapes lib cat)) =
              length (loadCategoryShapes lib cat)")
  case True
  then have "snd (removeShapeFromLibrary lc i cat lib) = lib"
    by (simp add: removeShapeFromLibrary_def Let_def)
  with assms show ?thesis by simp
next
  case False
  then have eq: "removeShapeFromLibrary lc i cat lib =
      saveCategoryShapes lc lib cat (filter (\<lambda>s. id_s s \<noteq> i) (loadCategoryShapes lib cat))"
    by (simp add: removeShapeFromLibrary_def Let_def)
  show ?thesis
    unfolding eq
  proof (rule saveCategoryShapes_wellformed [OF assms])
    assume "c = cat"
    with assms show "distinct (map id_s (filter (\<lambda>s. id_s s \<noteq> i) (loadCategoryShapes lib cat))) \<and>
        list_all (\<lambda>x. category x = cat) (filter (\<lambda>s. id_s s \<noteq> i) (loadCategoryShapes lib cat))"
      by (simp add: store_wellformed_def distinct_map_filter list_all_iff)
  qed
qed

lemma store_wellformed_absent:
  assumes "files lib (getCategoryFilePath lib c) = None"
  shows "store_wellformed lib c"
  using assms by (simp add: store_wellformed_def loadCategoryShapes_files)

lemma distinct_filter_eq_length:
  "distinct xs \<Longrightarrow> length (filter (\<lambda>v. v = i) xs) \<le> 1"
proof (induction xs)
  case Nil
  then show ?case by simp
next
  case (Cons a xs)
  show ?case
  proof (cases "a = i")
    case True
    with Cons.prems have "filter (\<lambda>v. v = i) xs = []"
      by (auto simp: filter_empty_conv)
    with True show ?thesis by simp
  next
    case False
    with Cons show ?thesis by simp
  qed
qed

lemma store_wellformed_single_id:
  assumes "store_wellformed lib c"
  shows "length (filter (\<lambda>s. id_s s = i) (loadCategoryShapes lib c)) \<le> 1"
proof -
  have "distinct (map id_s (loadCategoryShapes lib c))"
    using assms by (simp add: store_wellformed_def)
  from distinct_filter_eq_length [OF this, of i] show ?thesis
    by (simp add: filter_map comp_def)
qed

end
